theory Spec2Isabelle
  imports Main
begin

section \<open>JavaScript strings\<close>

text \<open>
  A JavaScript string is modelled as a \<open>string\<close> (a list of characters). The source only
  ever classifies characters by the ASCII classes of its regular expressions
  (\<open>[A-Za-z0-9 ]\<close>, \<open>[a-z0-9_-]\<close>, \<open>\s\<close>) and changes case with \<open>toLowerCase\<close> and
  \<open>toUpperCase\<close>; the model covers ASCII text, on which case mapping only touches the
  letters A-Z and a-z and \<open>\s\<close> is tab, line feed, vertical tab, form feed, carriage
  return and space.
\<close>

definition code :: "char \<Rightarrow> nat" where
  "code c = of_char c"

definition isDigit :: "char \<Rightarrow> bool" where
  "isDigit c \<longleftrightarrow> 48 \<le> code c \<and> code c \<le> 57"

definition isUpperAZ :: "char \<Rightarrow> bool" where
  "isUpperAZ c \<longleftrightarrow> 65 \<le> code c \<and> code c \<le> 90"

definition isLowerAZ :: "char \<Rightarrow> bool" where
  "isLowerAZ c \<longleftrightarrow> 97 \<le> code c \<and> code c \<le> 122"

definition isAlnum :: "char \<Rightarrow> bool" where
  "isAlnum c \<longleftrightarrow> isUpperAZ c \<or> isLowerAZ c \<or> isDigit c"

definition isSpace :: "char \<Rightarrow> bool" where
  "isSpace c \<longleftrightarrow> (9 \<le> code c \<and> code c \<le> 13) \<or> code c = 32"

definition toLowerChar :: "char \<Rightarrow> char" where
  "toLowerChar c = (if isUpperAZ c then char_of (code c + 32) else c)"

definition toUpperChar :: "char \<Rightarrow> char" where
  "toUpperChar c = (if isLowerAZ c then char_of (code c - 32) else c)"

definition toLowerCase :: "string \<Rightarrow> string" where
  "toLowerCase s = map toLowerChar s"

definition toUpperCase :: "string \<Rightarrow> string" where
  "toUpperCase s = map toUpperChar s"

text \<open>\<open>String.prototype.trim\<close>: white space is dropped at both ends.\<close>

definition trim :: "string \<Rightarrow> string" where
  "trim s = rev (dropWhile isSpace (rev (dropWhile isSpace s)))"

text \<open>
  \<open>s.replace(/[class]+/g, rep)\<close>: every maximal run of characters of the class is replaced
  by \<open>rep\<close>.
\<close>

function replaceRuns :: "(char \<Rightarrow> bool) \<Rightarrow> string \<Rightarrow> string \<Rightarrow> string" where
  "replaceRuns P rep [] = []"
| "replaceRuns P rep (c # cs) =
     (if P c then rep @ replaceRuns P rep (dropWhile P cs) else c # replaceRuns P rep cs)"
  by pat_completeness auto
termination
  by (relation "measure (\<lambda>(P, rep, s). length s)")
     (auto simp: length_dropWhile_le less_Suc_eq_le)

text \<open>\<open>s.split(sep)\<close> for a one-character separator; the empty string splits to \<open>['']\<close>.\<close>

fun splitOn :: "char \<Rightarrow> string \<Rightarrow> string list" where
  "splitOn sep [] = [[]]"
| "splitOn sep (c # cs) =
     (if c = sep then [] # splitOn sep cs
      else (case splitOn sep cs of
              [] \<Rightarrow> [[c]]
            | t # ts \<Rightarrow> (c # t) # ts))"

text \<open>\<open>parts.join(sep)\<close>.\<close>

fun join :: "string \<Rightarrow> string list \<Rightarrow> string" where
  "join sep [] = []"
| "join sep [t] = t"
| "join sep (t # u # ts) = t @ sep @ join sep (u # ts)"

text \<open>\<open>String(n)\<close> for a non-negative integer below \<open>2^53\<close>: its decimal digits.\<close>

definition digitChar :: "nat \<Rightarrow> char" where
  "digitChar d = char_of (48 + d)"

fun decimal :: "nat \<Rightarrow> string" where
  "decimal n = (if n < 10 then [digitChar n] else decimal (n div 10) @ [digitChar (n mod 10)])"

declare decimal.simps [simp del]

text \<open>\<open>s || 'Column'\<close>: the empty string is falsy.\<close>

definition orColumn :: "string \<Rightarrow> string" where
  "orColumn s = (if s = [] then ''Column'' else s)"

section \<open>JavaScript objects with string values\<close>

text \<open>
  An object literal filled by assignment is modelled by its own properties in creation
  order. Assigning to an existing key keeps its position; assigning a string to
  \<open>__proto__\<close> of an ordinary object creates no own property. \<open>Object.keys\<close> lists the
  array-index keys (canonical decimal strings below \<open>2^32 - 1\<close>) in ascending numeric
  order first and the other keys in creation order after them.
\<close>

type_synonym js_object = "(string \<times> string) list"

definition numericValue :: "string \<Rightarrow> int" where
  "numericValue s = foldl (\<lambda>a c. 10 * a + (int (code c) - 48)) 0 s"

definition isArrayIndex :: "string \<Rightarrow> bool" where
  "isArrayIndex s \<longleftrightarrow>
     s \<noteq> [] \<and> list_all isDigit s \<and> (s = ''0'' \<or> hd s \<noteq> CHR ''0'') \<and> numericValue s < 4294967295"

definition obj_set :: "js_object \<Rightarrow> string \<Rightarrow> string \<Rightarrow> js_object" where
  "obj_set obj k v =
     (if k = ''__proto__'' then obj
      else if k \<in> set (map fst obj) then map (\<lambda>(k', v'). if k' = k then (k', v) else (k', v')) obj
      else obj @ [(k, v)])"

definition obj_get :: "js_object \<Rightarrow> string \<Rightarrow> string option" where
  "obj_get obj k = map_of obj k"

definition Object_keys :: "js_object \<Rightarrow> string list" where
  "Object_keys obj =
     sort_key numericValue (filter isArrayIndex (map fst obj))
       @ filter (\<lambda>k. \<not> isArrayIndex k) (map fst obj)"

section \<open>Schema derivation (rdf/schema.js)\<close>

datatype PredicateCasing = camelCase | PascalCase | snake_case | SHOUT_CASE

datatype WhenNoHeader = ordinal | index

record PredicateOptions =
  prefixHas :: bool
  casing :: PredicateCasing
  whenNoHeader :: WhenNoHeader

definition tokenizeWords :: "string \<Rightarrow> string list" where
  "tokenizeWords phrase =
     (let cleaned =
            trim (replaceRuns isSpace '' ''
              (replaceRuns (\<lambda>c. \<not> (isAlnum c \<or> c = CHR '' '')) '' ''
                (replaceRuns (\<lambda>c. c = CHR ''_'' \<or> c = CHR ''-'') '' '' phrase)))
      in if cleaned = [] then [] else splitOn (CHR '' '') cleaned)"

definition capitalize :: "string \<Rightarrow> string" where
  "capitalize token = (case token of [] \<Rightarrow> [] | c # cs \<Rightarrow> toUpperChar c # toLowerCase cs)"

definition buildPredicateLocalName :: "string \<Rightarrow> PredicateOptions \<Rightarrow> string" where
  "buildPredicateLocalName columnKey predicateOptions =
     (let raw = (if trim columnKey = [] then ''Column'' else trim columnKey);
          phrase = (if prefixHas predicateOptions then ''has '' @ raw else raw);
          tokens = tokenizeWords phrase
      in case casing predicateOptions of
           snake_case \<Rightarrow> join ''_'' (map toLowerCase tokens)
         | SHOUT_CASE \<Rightarrow> join ''_'' (map toUpperCase tokens)
         | PascalCase \<Rightarrow> join [] (map capitalize tokens)
         | camelCase \<Rightarrow>
             (case tokens of
                [] \<Rightarrow> ''hasValue''
              | t # ts \<Rightarrow> join [] (toLowerCase t # map capitalize ts)))"

definition buildPredicateIrisForColumns ::
    "string list \<Rightarrow> PredicateOptions \<Rightarrow> string \<Rightarrow> js_object" where
  "buildPredicateIrisForColumns columnKeys predicateOptions basePredicateIri =
     foldl (\<lambda>out key. obj_set out key (basePredicateIri @ buildPredicateLocalName key predicateOptions))
       [] columnKeys"

text \<open>
  \<open>toExcelLetters\<close>: the \<open>while (n >= 0)\<close> loop, on integers because \<open>n\<close> ends at \<open>-1\<close>.
\<close>

function lettersLoop :: "int \<Rightarrow> string \<Rightarrow> string" where
  "lettersLoop n s =
     (if n \<ge> 0 then lettersLoop (n div 26 - 1) (char_of (nat (n mod 26 + 65)) # s) else s)"
  by pat_completeness auto
termination
  by (relation "measure (\<lambda>(n, s). nat (n + 1))") auto

declare lettersLoop.simps [simp del]

definition toExcelLetters :: "int \<Rightarrow> string" where
  "toExcelLetters i = lettersLoop (max 0 i) []"

text \<open>
  \<open>dedupeKeys\<close>: \<open>seen\<close> counts how often each base key has occurred so far. The map stands
  for the object \<open>seen\<close> on keys that are not names of members of \<open>Object.prototype\<close>.
\<close>

fun dedupeLoop :: "(string \<Rightarrow> nat option) \<Rightarrow> string list \<Rightarrow> string list" where
  "dedupeLoop seen [] = []"
| "dedupeLoop seen (k # ks) =
     (let base = orColumn (trim (orColumn k));
          n = (case seen base of None \<Rightarrow> 0 | Some m \<Rightarrow> m) + 1
      in (if n = 1 then base else base @ ''_'' @ decimal n) # dedupeLoop (seen(base \<mapsto> n)) ks)"

definition dedupeKeys :: "string list \<Rightarrow> string list" where
  "dedupeKeys keys = dedupeLoop Map.empty keys"

definition syntheticKeys :: "string list option \<Rightarrow> string list list \<Rightarrow> string list" where
  "syntheticKeys header rows =
     (let counts = (case header of None \<Rightarrow> 0 | Some h \<Rightarrow> length h) # map length rows;
          mx = foldr max counts 0
      in map (\<lambda>i. ''Column'' @ toExcelLetters (int i)) [0..<mx])"

definition buildColumnKeys :: "string list option \<Rightarrow> string list list \<Rightarrow> bool \<Rightarrow> string list" where
  "buildColumnKeys header rows treatFirstRowAsHeader =
     (case header of
        Some h \<Rightarrow>
          if treatFirstRowAsHeader \<and> length h > 0
          then dedupeKeys (map (\<lambda>c. orColumn (trim c)) h)
          else syntheticKeys header rows
      | None \<Rightarrow> syntheticKeys header rows)"

text \<open>
  The column number (from 1) that a sequence of letters denotes in spreadsheet lettering:
  A is 1, Z is 26, AA is 27. It is used to state what \<open>toExcelLetters\<close> computes.
\<close>

definition spreadsheetColumnNumber :: "string \<Rightarrow> int" where
  "spreadsheetColumnNumber s = foldl (\<lambda>a c. 26 * a + (int (code c) - 64)) 0 s"

section \<open>Identifiers (rdf/schema.js)\<close>

text \<open>
  Errors are values: \<open>RangeError\<close> is what \<open>toISOString\<close> throws on an invalid date,
  \<open>Rejected\<close> is a rejected promise of an external collaborator with its message.
\<close>

datatype js_error = RangeError | Rejected string

text \<open>\<open>s.replace(/^-+|-+$/g, '')\<close>: the separator is dropped at both ends.\<close>

definition stripChar :: "char \<Rightarrow> string \<Rightarrow> string" where
  "stripChar d s = rev (dropWhile (\<lambda>c. c = d) (rev (dropWhile (\<lambda>c. c = d) s)))"

definition slugify :: "string \<Rightarrow> string" where
  "slugify s =
     (let t = stripChar (CHR ''-'')
                (replaceRuns (\<lambda>c. c = CHR ''-'') ''-''
                  (replaceRuns (\<lambda>c. \<not> (isLowerAZ c \<or> isDigit c \<or> c = CHR ''_'' \<or> c = CHR ''-'')) ''-''
                    (replaceRuns isSpace ''-''
                      (map (\<lambda>c. if c = CHR ''.'' then CHR ''-'' else c)
                        (toLowerCase (trim s))))))
      in if t = [] then ''file'' else t)"

text \<open>
  \<open>filename.replace(/\.[^.]+$/, '')\<close>: the text from the last dot on is dropped when at
  least one character follows that dot.
\<close>

definition stripExtension :: "string \<Rightarrow> string" where
  "stripExtension filename =
     (let ext = rev (takeWhile (\<lambda>c. c \<noteq> CHR ''.'') (rev filename))
      in if ext \<noteq> [] \<and> length ext < length filename
         then take (length filename - length ext - 1) filename
         else filename)"

definition ensureTrailingSlash :: "string \<Rightarrow> string" where
  "ensureTrailingSlash iri = (if iri \<noteq> [] \<and> last iri = CHR ''/'' then iri else iri @ ''/'')"

text \<open>
  A \<open>Date\<close> is either invalid (its time value is NaN) or valid; a valid date is given by
  the UTC fields its getters return (\<open>getUTCMonth\<close> counts from 0).
\<close>

record utc_fields =
  utcFullYear :: int
  utcMonth :: nat
  utcDate :: nat
  utcHours :: nat
  utcMinutes :: nat
  utcSeconds :: nat
  utcMilliseconds :: nat

datatype js_date = InvalidDate | ValidDate utc_fields

definition padStart :: "nat \<Rightarrow> string \<Rightarrow> string" where
  "padStart n s = replicate (n - length s) (CHR ''0'') @ s"

definition isoYear :: "int \<Rightarrow> string" where
  "isoYear y =
     (if 0 \<le> y \<and> y \<le> 9999 then padStart 4 (decimal (nat y))
      else (if y < 0 then ''-'' else ''+'') @ padStart 6 (decimal (nat \<bar>y\<bar>)))"

definition toISOString :: "js_date \<Rightarrow> js_error + string" where
  "toISOString d =
     (case d of
        InvalidDate \<Rightarrow> Inl RangeError
      | ValidDate f \<Rightarrow>
          Inr (isoYear (utcFullYear f) @ ''-'' @ padStart 2 (decimal (utcMonth f + 1)) @ ''-''
               @ padStart 2 (decimal (utcDate f)) @ ''T'' @ padStart 2 (decimal (utcHours f)) @ '':''
               @ padStart 2 (decimal (utcMinutes f)) @ '':'' @ padStart 2 (decimal (utcSeconds f)) @ ''.''
               @ padStart 3 (decimal (utcMilliseconds f)) @ ''Z''))"

text \<open>
  \<open>new Date(Date.UTC(y, m, d, 0, 0, 0))\<close> for the UTC fields of \<open>now\<close>: \<open>Date.UTC\<close> reads a
  year from 0 to 99 as 1900 plus that year, and 29 February of year 0 then falls on
  1 March 1900.
\<close>

definition utcMidnight :: "js_date \<Rightarrow> js_date" where
  "utcMidnight now =
     (case now of
        InvalidDate \<Rightarrow> InvalidDate
      | ValidDate f \<Rightarrow>
          (let y = utcFullYear f; m = utcMonth f; d = utcDate f
           in if y = 0 \<and> m = 1 \<and> d = 29
              then ValidDate \<lparr>utcFullYear = 1900, utcMonth = 2, utcDate = 1, utcHours = 0,
                     utcMinutes = 0, utcSeconds = 0, utcMilliseconds = 0\<rparr>
              else ValidDate \<lparr>utcFullYear = (if 0 \<le> y \<and> y \<le> 99 then 1900 + y else y),
                     utcMonth = m, utcDate = d, utcHours = 0,
                     utcMinutes = 0, utcSeconds = 0, utcMilliseconds = 0\<rparr>))"

definition buildRunGraphIri :: "string \<Rightarrow> string \<Rightarrow> js_date \<Rightarrow> js_error + string" where
  "buildRunGraphIri baseRunIri filename now =
     (case toISOString (utcMidnight now) of
        Inl e \<Rightarrow> Inl e
      | Inr isoText \<Rightarrow>
          (let date = take 10 isoText;
               file = slugify (stripExtension filename);
               base = ensureTrailingSlash baseRunIri
           in Inr (base @ date @ ''/'' @ file)))"


text \<open>The date stamp of a calendar day whose year is written with four digits.\<close>

definition plainDay :: "utc_fields \<Rightarrow> bool" where
  "plainDay f \<longleftrightarrow> 100 \<le> utcFullYear f \<and> utcFullYear f \<le> 9999 \<and> utcMonth f < 12
     \<and> 1 \<le> utcDate f \<and> utcDate f \<le> 31"

definition dateStamp :: "utc_fields \<Rightarrow> string" where
  "dateStamp f = padStart 4 (decimal (nat (utcFullYear f))) @ ''-''
      @ padStart 2 (decimal (utcMonth f + 1)) @ ''-'' @ padStart 2 (decimal (utcDate f))"

section \<open>Literal coercion (rdf/schema.js)\<close>

text \<open>
  A JavaScript number is NaN, an infinity or finite. A finite number is represented by the
  text that \<open>String\<close> gives it, which is all the source does with a number.
\<close>

datatype js_number = NaN | PosInfinity | NegInfinity | Finite string

definition Number_isFinite :: "js_number \<Rightarrow> bool" where
  "Number_isFinite n = (case n of Finite t \<Rightarrow> True | _ \<Rightarrow> False)"

definition numberToString :: "js_number \<Rightarrow> string" where
  "numberToString n =
     (case n of NaN \<Rightarrow> ''NaN'' | PosInfinity \<Rightarrow> ''Infinity'' | NegInfinity \<Rightarrow> ''-Infinity''
      | Finite t \<Rightarrow> t)"

text \<open>
  The parts of the JavaScript runtime that are floating point or implementation defined
  are parameters: \<open>Number(s)\<close>, \<open>new Date(s)\<close>, and the conversion to a number of an
  integer beyond \<open>2^53\<close>, where a double no longer holds every integer.
\<close>

record js_runtime =
  Number_of :: "string \<Rightarrow> js_number"
  Date_of :: "string \<Rightarrow> js_date"
  roundInt :: "int \<Rightarrow> js_number"

text \<open>
  \<open>parseInt(s, 10)\<close>: leading white space and one sign are skipped, the longest prefix of
  decimal digits is read; without a digit the result is NaN. Both zeros print as 0.
\<close>

definition parseInt10 :: "js_runtime \<Rightarrow> string \<Rightarrow> js_number" where
  "parseInt10 rt s =
     (let t = dropWhile isSpace s;
          negative = (t \<noteq> [] \<and> hd t = CHR ''-'');
          u = (if t \<noteq> [] \<and> (hd t = CHR ''-'' \<or> hd t = CHR ''+'') then tl t else t);
          z = takeWhile isDigit u
      in if z = [] then NaN
         else (let mathInt = numericValue z
               in if mathInt \<le> 9007199254740992
                  then Finite ((if negative \<and> mathInt \<noteq> 0 then ''-'' else []) @ decimal (nat mathInt))
                  else roundInt rt (if negative then - mathInt else mathInt)))"

definition toBooleanLexical :: "string \<Rightarrow> string" where
  "toBooleanLexical s =
     (let v = toLowerCase (trim s)
      in if v = ''1'' \<or> v = ''true'' \<or> v = ''yes'' \<or> v = ''y'' then ''true''
         else if v = ''0'' \<or> v = ''false'' \<or> v = ''no'' \<or> v = ''n'' then ''false''
         else if v \<noteq> [] then ''true'' else ''false'')"

definition toIntegerLexical :: "js_runtime \<Rightarrow> string \<Rightarrow> string" where
  "toIntegerLexical rt s =
     (let n = parseInt10 rt (trim s)
      in if Number_isFinite n then numberToString n else ''0'')"

definition toNumberLexical :: "js_runtime \<Rightarrow> string \<Rightarrow> string" where
  "toNumberLexical rt s =
     (let n = Number_of rt (trim s)
      in if Number_isFinite n then numberToString n else ''0'')"

text \<open>\<open>new Date(0)\<close>, and \<open>Number.isFinite(d.getTime())\<close>, which holds of the valid dates.\<close>

definition epoch :: js_date where
  "epoch = ValidDate \<lparr>utcFullYear = 1970, utcMonth = 0, utcDate = 1, utcHours = 0,
             utcMinutes = 0, utcSeconds = 0, utcMilliseconds = 0\<rparr>"

definition timeIsFinite :: "js_date \<Rightarrow> bool" where
  "timeIsFinite d = (case d of InvalidDate \<Rightarrow> False | ValidDate f \<Rightarrow> True)"

definition toDateTimeLexical :: "js_runtime \<Rightarrow> string \<Rightarrow> js_error + string" where
  "toDateTimeLexical rt s =
     (let d = Date_of rt (trim s)
      in if timeIsFinite d then toISOString d else toISOString epoch)"

definition looksLikeAbsoluteIri :: "string \<Rightarrow> bool" where
  "looksLikeAbsoluteIri s \<longleftrightarrow>
     toLowerCase (take 7 s) = ''http://'' \<or> toLowerCase (take 8 s) = ''https://''"

definition endsWith :: "string \<Rightarrow> string \<Rightarrow> bool" where
  "endsWith s suffix \<longleftrightarrow>
     length suffix \<le> length s \<and> drop (length s - length suffix) s = suffix"

text \<open>
  RDF/JS terms as the N3 \<open>DataFactory\<close> makes them: a named node, a literal with its
  lexical value, language tag and datatype, or the default graph. A literal made with the
  empty datatype is a plain literal, whose datatype is \<open>xsd:string\<close>. The model follows
  the RDF/JS interface: the value, language and datatype read from a term are the ones it
  was made from.
\<close>

datatype rdf_term = NamedNode string | Literal string string string | DefaultGraph

definition xsd_string :: string where
  "xsd_string = ''http://www.w3.org/2001/XMLSchema#string''"

definition termValue :: "rdf_term \<Rightarrow> string" where
  "termValue t = (case t of NamedNode v \<Rightarrow> v | Literal v l d \<Rightarrow> v | DefaultGraph \<Rightarrow> [])"

definition DataFactory_namedNode :: "string \<Rightarrow> rdf_term" where
  "DataFactory_namedNode v = NamedNode v"

definition DataFactory_literal :: "string \<Rightarrow> rdf_term \<Rightarrow> rdf_term" where
  "DataFactory_literal v datatypeNode =
     Literal v [] (if termValue datatypeNode = [] then xsd_string else termValue datatypeNode)"

definition xsd_boolean :: string where
  "xsd_boolean = ''http://www.w3.org/2001/XMLSchema#boolean''"

definition xsd_integer :: string where
  "xsd_integer = ''http://www.w3.org/2001/XMLSchema#integer''"

definition xsd_decimal :: string where
  "xsd_decimal = ''http://www.w3.org/2001/XMLSchema#decimal''"

definition xsd_double :: string where
  "xsd_double = ''http://www.w3.org/2001/XMLSchema#double''"

definition xsd_float :: string where
  "xsd_float = ''http://www.w3.org/2001/XMLSchema#float''"

definition xsd_dateTime :: string where
  "xsd_dateTime = ''http://www.w3.org/2001/XMLSchema#dateTime''"

definition buildLiteralObject :: "js_runtime \<Rightarrow> string \<Rightarrow> string \<Rightarrow> js_error + rdf_term" where
  "buildLiteralObject rt val dt =
     (let v = trim val
      in if endsWith dt ''#anyURI'' \<and> looksLikeAbsoluteIri v then Inr (DataFactory_namedNode v)
         else if endsWith dt ''#boolean''
           then Inr (DataFactory_literal (toBooleanLexical v) (DataFactory_namedNode dt))
         else if endsWith dt ''#integer''
           then Inr (DataFactory_literal (toIntegerLexical rt v) (DataFactory_namedNode dt))
         else if endsWith dt ''#decimal'' \<or> endsWith dt ''#double'' \<or> endsWith dt ''#float''
           then Inr (DataFactory_literal (toNumberLexical rt v) (DataFactory_namedNode dt))
         else if endsWith dt ''#dateTime''
           then (case toDateTimeLexical rt v of
                   Inl e \<Rightarrow> Inl e
                 | Inr lexical \<Rightarrow> Inr (DataFactory_literal lexical (DataFactory_namedNode dt)))
         else Inr (DataFactory_literal v (DataFactory_namedNode dt)))"


text \<open>
  A runtime for examples in which no numeric or date column occurs: its \<open>Number\<close> and
  \<open>Date\<close> reject every text.
\<close>

definition nullRuntime :: js_runtime where
  "nullRuntime = \<lparr>Number_of = (\<lambda>s. NaN), Date_of = (\<lambda>s. InvalidDate), roundInt = (\<lambda>i. PosInfinity)\<rparr>"

text \<open>\<open>String(n)\<close> of a finite number is never the empty text.\<close>

definition runtime_ok :: "js_runtime \<Rightarrow> bool" where
  "runtime_ok rt \<longleftrightarrow> (\<forall>s. Number_of rt s \<noteq> Finite []) \<and> (\<forall>i. roundInt rt i \<noteq> Finite [])"

text \<open>
  \<open>encodeURIComponent\<close> on ASCII text: letters, digits and \<open>- _ . ! ~ * ' ( )\<close> are kept,
  any other character becomes a percent sign and two capital hexadecimal digits.
\<close>

definition hexDigit :: "nat \<Rightarrow> char" where
  "hexDigit d = (if d < 10 then char_of (48 + d) else char_of (55 + d))"

definition isUriUnreserved :: "char \<Rightarrow> bool" where
  "isUriUnreserved c \<longleftrightarrow> isAlnum c \<or> c \<in> set ''-_.!~*()'' \<or> code c = 39"

definition encodeURIComponent :: "string \<Rightarrow> string" where
  "encodeURIComponent s =
     concat (map (\<lambda>c. if isUriUnreserved c then [c]
                       else [CHR ''%'', hexDigit (code c div 16), hexDigit (code c mod 16)]) s)"

text \<open>
  \<open>crypto.randomUUID()\<close> draws from a source of tokens: the source is a stream, a call
  takes its first token and leaves the rest.
\<close>

type_synonym uuid_source = "nat \<Rightarrow> string"

definition randomUUID :: "uuid_source \<Rightarrow> string \<times> uuid_source" where
  "randomUUID src = (src 0, (\<lambda>i. src (Suc i)))"

definition buildRowInstanceIri :: "string \<Rightarrow> nat \<Rightarrow> uuid_source \<Rightarrow> string \<times> uuid_source" where
  "buildRowInstanceIri baseInstanceIri rowIndex src =
     (let base = ensureTrailingSlash baseInstanceIri;
          (uuid, src') = randomUUID src
      in (base @ uuid @ ''?row='' @ encodeURIComponent (decimal rowIndex), src'))"

section \<open>Quad assembly (rdf/buildDataset.js)\<close>

text \<open>
  The fields of a record carry a prefix naming the record (\<open>tab_\<close>, \<open>opt_\<close>, \<open>rec_\<close>,
  and so on): a field is a constant in HOL, and the source's short field names are also
  the names of its variables.
\<close>

record TabularData =
  tab_header :: "string list option"
  tab_rows :: "string list list"

record FileOptions =
  opt_treatFirstRowAsHeader :: bool
  opt_delimiterHint :: "char option"
  opt_predicate :: PredicateOptions
  opt_datatypesByColumnKey :: "string \<Rightarrow> string option"

datatype object_kind = iri | literal

record QuadRecord =
  rec_s :: string
  rec_p :: string
  rec_g :: string
  rec_oType :: object_kind
  rec_oValue :: string
  rec_datatypeIri :: "string option"
  rec_lang :: "string option"

datatype quad = Quad rdf_term rdf_term rdf_term rdf_term

text \<open>
  An N3 \<open>Store\<close> holds each quad once; it is modelled by the quads added, in the order of
  their first addition.
\<close>

type_synonym n3_store = "quad list"

definition addQuad :: "n3_store \<Rightarrow> quad \<Rightarrow> n3_store" where
  "addQuad store q = (if q \<in> set store then store else store @ [q])"

definition termDatatype :: "rdf_term \<Rightarrow> string option" where
  "termDatatype t = (case t of Literal v l d \<Rightarrow> Some d | _ \<Rightarrow> None)"

definition termLanguage :: "rdf_term \<Rightarrow> string" where
  "termLanguage t = (case t of Literal v l d \<Rightarrow> l | _ \<Rightarrow> [])"

definition isNamedNode :: "rdf_term \<Rightarrow> bool" where
  "isNamedNode t = (case t of NamedNode v \<Rightarrow> True | _ \<Rightarrow> False)"

text \<open>The record pushed for an object term, by the two branches on \<open>obj.termType\<close>.\<close>

definition recordOf :: "string \<Rightarrow> string \<Rightarrow> string \<Rightarrow> rdf_term \<Rightarrow> QuadRecord" where
  "recordOf subjectIri pIri graphIri obj =
     (if isNamedNode obj
      then \<lparr>rec_s = subjectIri, rec_p = pIri, rec_g = graphIri, rec_oType = iri,
             rec_oValue = termValue obj, rec_datatypeIri = None, rec_lang = None\<rparr>
      else \<lparr>rec_s = subjectIri, rec_p = pIri, rec_g = graphIri, rec_oType = literal,
             rec_oValue = termValue obj, rec_datatypeIri = termDatatype obj,
             rec_lang = (if termLanguage obj = [] then None else Some (termLanguage obj))\<rparr>)"

text \<open>
  The body of the inner loop for column \<open>c\<close> with key \<open>key\<close>: \<open>None\<close> is \<open>continue\<close>,
  \<open>Some (Inl e)\<close> is a failed \<open>buildLiteralObject\<close>, \<open>Some (Inr (q, rec))\<close> is the quad
  added to the store and the record pushed.
\<close>

definition cellStep ::
    "(string \<Rightarrow> string \<Rightarrow> js_error + rdf_term) \<Rightarrow> FileOptions \<Rightarrow> js_object \<Rightarrow> string \<Rightarrow> string
      \<Rightarrow> string list \<Rightarrow> nat \<times> string \<Rightarrow> (js_error + quad \<times> QuadRecord) option" where
  "cellStep coerce options predicateIris graphIri subjectIri row ck =
     (case ck of (c, key) \<Rightarrow>
        (case obj_get predicateIris key of
           None \<Rightarrow> None
         | Some pIri \<Rightarrow>
             if pIri = [] then None
             else if length row \<le> c then None
             else if trim (row ! c) = [] then None
             else (let dtype = (case opt_datatypesByColumnKey options key of
                                  None \<Rightarrow> xsd_string
                                | Some d \<Rightarrow> if d = [] then xsd_string else d)
                   in case coerce (row ! c) dtype of
                        Inl e \<Rightarrow> Some (Inl e)
                      | Inr obj \<Rightarrow>
                          Some (Inr (Quad (DataFactory_namedNode subjectIri) (DataFactory_namedNode pIri)
                                       obj (DataFactory_namedNode graphIri),
                                     recordOf subjectIri pIri graphIri obj)))))"

fun cellsLoop ::
    "(nat \<times> string \<Rightarrow> (js_error + quad \<times> QuadRecord) option) \<Rightarrow> (nat \<times> string) list
      \<Rightarrow> n3_store \<times> QuadRecord list \<Rightarrow> js_error + n3_store \<times> QuadRecord list" where
  "cellsLoop step [] acc = Inr acc"
| "cellsLoop step (ck # rest) (store, records) =
     (case step ck of
        None \<Rightarrow> cellsLoop step rest (store, records)
      | Some (Inl e) \<Rightarrow> Inl e
      | Some (Inr (q, r)) \<Rightarrow> cellsLoop step rest (addQuad store q, records @ [r]))"

fun rowsLoop ::
    "(string \<Rightarrow> nat \<Rightarrow> 'src \<Rightarrow> string \<times> 'src) \<Rightarrow> (string \<Rightarrow> string \<Rightarrow> js_error + rdf_term)
      \<Rightarrow> FileOptions \<Rightarrow> string \<Rightarrow> js_object \<Rightarrow> string \<Rightarrow> string list
      \<Rightarrow> nat \<Rightarrow> string list list \<Rightarrow> 'src \<Rightarrow> n3_store \<times> QuadRecord list
      \<Rightarrow> js_error + n3_store \<times> QuadRecord list" where
  "rowsLoop mint coerce options baseInstanceIri predicateIris graphIri columnKeys r [] src acc = Inr acc"
| "rowsLoop mint coerce options baseInstanceIri predicateIris graphIri columnKeys r (row # rest) src acc =
     (case mint baseInstanceIri r src of
        (subjectIri, src') \<Rightarrow>
          (case cellsLoop (cellStep coerce options predicateIris graphIri subjectIri row)
                  (zip [0 ..< length columnKeys] columnKeys) acc of
             Inl e \<Rightarrow> Inl e
           | Inr acc' \<Rightarrow>
               rowsLoop mint coerce options baseInstanceIri predicateIris graphIri columnKeys
                 (Suc r) rest src' acc'))"

definition dataRowsOf :: "TabularData \<Rightarrow> FileOptions \<Rightarrow> string list list" where
  "dataRowsOf tabular options =
     (if opt_treatFirstRowAsHeader options then tab_rows tabular
      else (case tab_header tabular of None \<Rightarrow> [] | Some h \<Rightarrow> [h]) @ tab_rows tabular)"

definition buildDatasetFromTabular ::
    "TabularData \<Rightarrow> FileOptions \<Rightarrow> string \<Rightarrow> js_object \<Rightarrow> string
      \<Rightarrow> (string \<Rightarrow> nat \<Rightarrow> 'src \<Rightarrow> string \<times> 'src) \<Rightarrow> (string \<Rightarrow> string \<Rightarrow> js_error + rdf_term)
      \<Rightarrow> 'src \<Rightarrow> js_error + n3_store \<times> QuadRecord list" where
  "buildDatasetFromTabular tabular options baseInstanceIri predicateIris graphIri mint coerce src =
     rowsLoop mint coerce options baseInstanceIri predicateIris graphIri (Object_keys predicateIris)
       0 (dataRowsOf tabular options) src ([], [])"

definition quadOfRecord :: "QuadRecord \<Rightarrow> quad" where
  "quadOfRecord r =
     Quad (DataFactory_namedNode (rec_s r)) (DataFactory_namedNode (rec_p r))
       (if rec_oType r = iri then DataFactory_namedNode (rec_oValue r)
        else DataFactory_literal (rec_oValue r)
               (DataFactory_namedNode
                  (case rec_datatypeIri r of
                     None \<Rightarrow> xsd_string
                   | Some d \<Rightarrow> if d = [] then xsd_string else d)))
       (DataFactory_namedNode (rec_g r))"

definition datasetFromQuads :: "QuadRecord list \<Rightarrow> n3_store" where
  "datasetFromQuads records = foldl (\<lambda>store r. addQuad store (quadOfRecord r)) [] records"

text \<open>
  Which cells the inner loop emits: the column has a key with a non-empty predicate
  identifier, the row has a cell at that index, and the cell is not blank.
\<close>

definition emitsCell :: "js_object \<Rightarrow> string list \<Rightarrow> nat \<times> string \<Rightarrow> bool" where
  "emitsCell predicateIris row ck =
     (case ck of (c, key) \<Rightarrow>
        (case obj_get predicateIris key of
           None \<Rightarrow> False
         | Some pIri \<Rightarrow> pIri \<noteq> [] \<and> c < length row \<and> trim (row ! c) \<noteq> []))"

definition emittedCount :: "js_object \<Rightarrow> string list list \<Rightarrow> nat" where
  "emittedCount predicateIris dataRows =
     sum_list (map (\<lambda>row. length (filter (emitsCell predicateIris row)
                 (zip [0 ..< length (Object_keys predicateIris)] (Object_keys predicateIris))))
               dataRows)"

text \<open>The number of non-blank cells of a list of rows.\<close>

definition nonBlankCells :: "string list list \<Rightarrow> nat" where
  "nonBlankCells dataRows = sum_list (map (\<lambda>row. length (filter (\<lambda>cell. trim cell \<noteq> []) row)) dataRows)"

definition quadCount :: "js_error + n3_store \<times> QuadRecord list \<Rightarrow> nat option" where
  "quadCount res = (case res of Inl e \<Rightarrow> None | Inr (store, records) \<Rightarrow> Some (length records))"

text \<open>The quads and records that the steps of one row emit, and the groups of all rows.\<close>

definition emitted ::
    "(nat \<times> string \<Rightarrow> (js_error + quad \<times> QuadRecord) option) \<Rightarrow> (nat \<times> string) list
      \<Rightarrow> (quad \<times> QuadRecord) list" where
  "emitted step cks =
     List.map_filter (\<lambda>ck. case step ck of Some (Inr e) \<Rightarrow> Some e | _ \<Rightarrow> None) cks"

fun rowGroups ::
    "(string \<Rightarrow> nat \<Rightarrow> 'src \<Rightarrow> string \<times> 'src) \<Rightarrow> (string \<Rightarrow> string \<Rightarrow> js_error + rdf_term)
      \<Rightarrow> FileOptions \<Rightarrow> string \<Rightarrow> js_object \<Rightarrow> string \<Rightarrow> string list
      \<Rightarrow> nat \<Rightarrow> string list list \<Rightarrow> 'src \<Rightarrow> (quad \<times> QuadRecord) list list" where
  "rowGroups mint coerce options baseInstanceIri predicateIris graphIri columnKeys r [] src = []"
| "rowGroups mint coerce options baseInstanceIri predicateIris graphIri columnKeys r (row # rest) src =
     emitted (cellStep coerce options predicateIris graphIri (fst (mint baseInstanceIri r src)) row)
         (zip [0 ..< length columnKeys] columnKeys)
       # rowGroups mint coerce options baseInstanceIri predicateIris graphIri columnKeys
           (Suc r) rest (snd (mint baseInstanceIri r src))"

text \<open>The subject of row \<open>r\<close> when the source of tokens is \<open>src\<close> at row 0.\<close>

definition rowSubject :: "string \<Rightarrow> uuid_source \<Rightarrow> nat \<Rightarrow> string" where
  "rowSubject baseInstanceIri src r =
     ensureTrailingSlash baseInstanceIri @ src r @ ''?row='' @ decimal r"

text \<open>Inputs for the examples: default options, a source of tokens, a ragged grid.\<close>

definition exampleOptions :: FileOptions where
  "exampleOptions = \<lparr>opt_treatFirstRowAsHeader = True, opt_delimiterHint = None,
     opt_predicate = \<lparr>prefixHas = True, casing = camelCase, whenNoHeader = ordinal\<rparr>,
     opt_datatypesByColumnKey = Map.empty\<rparr>"

definition exampleSource :: uuid_source where
  "exampleSource = (\<lambda>i. ''token'' @ decimal i)"

definition raggedGrid :: TabularData where
  "raggedGrid = \<lparr>tab_header = Some [''first'', ''last''],
     tab_rows = [[''Ada'', ''Lovelace''], [''Alan'', ''Turing'', ''1912'']]\<rparr>"

definition raggedPredicateIris :: js_object where
  "raggedPredicateIris =
     buildPredicateIrisForColumns
       (buildColumnKeys (tab_header raggedGrid) (tab_rows raggedGrid) (opt_treatFirstRowAsHeader exampleOptions))
       (opt_predicate exampleOptions) ''https://example.org/TableNova/ns#''"

section \<open>Serialization (rdf/serialize.js)\<close>

text \<open>
  The N3 writer and the JSON-LD converter are external codecs, so they are parameters:
  the order in which a store lists its quads, the text a writer produces for a list of
  quads (or the error it reports), the conversion of N-Quads text to a JSON-LD document,
  and \<open>JSON.stringify\<close> of a document and of the named-graph wrapper around it.
\<close>

datatype rdf_format = Turtle | NTriples | TriG | NQuads

record 'j codecs =
  n3_getQuads :: "n3_store \<Rightarrow> quad list"
  n3_write :: "rdf_format \<Rightarrow> (string \<times> string) list option \<Rightarrow> quad list \<Rightarrow> js_error + string"
  jsonld_fromRDF :: "string \<Rightarrow> js_error + 'j"
  json_stringify :: "'j \<Rightarrow> string"
  json_stringifyNamed :: "string \<Rightarrow> 'j \<Rightarrow> string"

record Serializations =
  ser_turtle :: string
  ser_trig :: string
  ser_ntriples :: string
  ser_nquads :: string
  ser_jsonldTriples :: string
  ser_jsonldGraph :: string

definition writeWithN3 ::
    "'j codecs \<Rightarrow> n3_store \<Rightarrow> rdf_format \<Rightarrow> (string \<times> string) list option \<Rightarrow> js_error + string" where
  "writeWithN3 cd store fmt prefixes = n3_write cd fmt prefixes (n3_getQuads cd store)"

definition rdfToJsonLd :: "'j codecs \<Rightarrow> string \<Rightarrow> bool \<Rightarrow> string option \<Rightarrow> js_error + string" where
  "rdfToJsonLd cd nquadsOrNtriples isDataset graphIri =
     (case jsonld_fromRDF cd nquadsOrNtriples of
        Inl e \<Rightarrow> Inl e
      | Inr doc \<Rightarrow>
          if \<not> isDataset then Inr (json_stringify cd doc)
          else Inr (json_stringifyNamed cd
                 (case graphIri of
                    None \<Rightarrow> ''urn:TableNova:graph''
                  | Some gi \<Rightarrow> if gi = [] then ''urn:TableNova:graph'' else gi)
                 doc))"

definition toDefaultGraph :: "quad \<Rightarrow> quad" where
  "toDefaultGraph q = (case q of Quad qs qp qo qg \<Rightarrow> Quad qs qp qo DefaultGraph)"

definition datasetToSerializations ::
    "'j codecs \<Rightarrow> n3_store \<Rightarrow> string \<Rightarrow> (string \<times> string) list \<Rightarrow> js_error + Serializations" where
  "datasetToSerializations cd dataset graphIri prefixes =
     (let triplesStore = foldl addQuad [] (map toDefaultGraph (n3_getQuads cd dataset))
      in case writeWithN3 cd triplesStore Turtle (Some prefixes) of
           Inl e \<Rightarrow> Inl e
         | Inr turtle \<Rightarrow>
        (case writeWithN3 cd triplesStore NTriples None of
           Inl e \<Rightarrow> Inl e
         | Inr ntriples \<Rightarrow>
        (case writeWithN3 cd dataset TriG (Some prefixes) of
           Inl e \<Rightarrow> Inl e
         | Inr trig \<Rightarrow>
        (case writeWithN3 cd dataset NQuads None of
           Inl e \<Rightarrow> Inl e
         | Inr nquads \<Rightarrow>
        (case rdfToJsonLd cd ntriples False None of
           Inl e \<Rightarrow> Inl e
         | Inr jsonldTriples \<Rightarrow>
        (case rdfToJsonLd cd nquads True (Some graphIri) of
           Inl e \<Rightarrow> Inl e
         | Inr jsonldGraph \<Rightarrow>
             Inr \<lparr>ser_turtle = turtle, ser_trig = trig, ser_ntriples = ntriples,
                   ser_nquads = nquads, ser_jsonldTriples = jsonldTriples,
                   ser_jsonldGraph = jsonldGraph\<rparr>))))))"

section \<open>Run store (storage/indexedDb.js)\<close>

record StoredRun =
  run_graphIri :: string
  run_filename :: string
  run_createdAtIso :: string
  run_quads :: "QuadRecord list"

text \<open>
  The object store \<open>runs\<close> has the key path \<open>graphIri\<close>: it holds at most one run per graph
  identifier. A transaction completes or fails; \<open>fault\<close> is the error of a failed one.
\<close>

type_synonym idb = "StoredRun list"

definition putRun :: "js_error option \<Rightarrow> idb \<Rightarrow> StoredRun \<Rightarrow> js_error + idb" where
  "putRun fault db run =
     (case fault of
        Some e \<Rightarrow> Inl e
      | None \<Rightarrow> Inr (filter (\<lambda>r. run_graphIri r \<noteq> run_graphIri run) db @ [run]))"

definition getRunDataset :: "idb \<Rightarrow> string \<Rightarrow> StoredRun option" where
  "getRunDataset db graphIri = find (\<lambda>r. run_graphIri r = graphIri) db"

section \<open>Running a staged file (main.js)\<close>

record StagedFile =
  sf_id :: string
  sf_name :: string
  sf_options :: FileOptions

record Defaults =
  cfg_baseInstanceIri :: string
  cfg_basePredicateIri :: string
  cfg_baseRunIri :: string
  cfg_prefixes :: "(string \<times> string) list"

record Output =
  out_filename :: string
  out_graphIri :: string
  out_quads :: "QuadRecord list"
  out_ser :: Serializations

text \<open>
  What \<open>handleRun\<close> takes from outside: reading and parsing the file, the two clock
  readings, the runtime, the source of tokens, the codecs, and whether the store
  transactions fail.
\<close>

record 'j run_env =
  env_readTabular :: "StagedFile \<Rightarrow> js_error + TabularData"
  env_now :: js_date
  env_createdAt :: js_date
  env_runtime :: js_runtime
  env_uuids :: uuid_source
  env_codecs :: "'j codecs"
  env_putFault :: "js_error option"
  env_listFault :: "js_error option"

record app_state =
  st_db :: "idb option"
  st_stagedFiles :: "StagedFile list"
  st_lastOutput :: "Output option"
  st_toasts :: "(string \<times> string) list"

definition errorMessage :: "js_error \<Rightarrow> string" where
  "errorMessage e = (case e of RangeError \<Rightarrow> ''Invalid time value'' | Rejected m \<Rightarrow> m)"

text \<open>
  The function passed to \<open>safeAsync\<close>: the state it leaves behind, and the error thrown if
  one of its steps fails.
\<close>

definition handleRunBody ::
    "'j run_env \<Rightarrow> Defaults \<Rightarrow> idb \<Rightarrow> StagedFile \<Rightarrow> app_state \<Rightarrow> app_state \<times> js_error option" where
  "handleRunBody env cfg db staged st =
     (case env_readTabular env staged of
        Inl e \<Rightarrow> (st, Some e)
      | Inr tabular \<Rightarrow>
     (let options = sf_options staged;
          columnKeys = buildColumnKeys (tab_header tabular) (tab_rows tabular)
                         (opt_treatFirstRowAsHeader options);
          predicateIris = buildPredicateIrisForColumns columnKeys (opt_predicate options)
                            (cfg_basePredicateIri cfg)
      in case buildRunGraphIri (cfg_baseRunIri cfg) (sf_name staged) (env_now env) of
           Inl e \<Rightarrow> (st, Some e)
         | Inr graphIri \<Rightarrow>
        (case buildDatasetFromTabular tabular options (cfg_baseInstanceIri cfg) predicateIris graphIri
                buildRowInstanceIri (buildLiteralObject (env_runtime env)) (env_uuids env) of
           Inl e \<Rightarrow> (st, Some e)
         | Inr (dataset, quads) \<Rightarrow>
        (case datasetToSerializations (env_codecs env) dataset graphIri (cfg_prefixes cfg) of
           Inl e \<Rightarrow> (st, Some e)
         | Inr ser \<Rightarrow>
        (case toISOString (env_createdAt env) of
           Inl e \<Rightarrow> (st, Some e)
         | Inr createdAtIso \<Rightarrow>
        (case putRun (env_putFault env) db
                \<lparr>run_graphIri = graphIri, run_filename = sf_name staged,
                  run_createdAtIso = createdAtIso, run_quads = quads\<rparr> of
           Inl e \<Rightarrow> (st, Some e)
         | Inr db' \<Rightarrow>
             (let st1 = st\<lparr>st_db := Some db',
                          st_lastOutput := Some \<lparr>out_filename = sf_name staged, out_graphIri = graphIri,
                                                  out_quads = quads, out_ser = ser\<rparr>\<rparr>
              in case env_listFault env of
                   Some e \<Rightarrow> (st1, Some e)
                 | None \<Rightarrow>
                     (st1\<lparr>st_toasts := st_toasts st1
                            @ [(''Run complete'', ''Stored named graph in IndexedDB.'')]\<rparr>, None))))))))"

definition handleRun :: "'j run_env \<Rightarrow> Defaults \<Rightarrow> app_state \<Rightarrow> app_state" where
  "handleRun env cfg st =
     (case st_db st of
        None \<Rightarrow> st
      | Some db \<Rightarrow>
          (case st_stagedFiles st of
             [] \<Rightarrow> st\<lparr>st_toasts := st_toasts st
                        @ [(''Nothing to run'', ''Add a file to the staging area first.'')]\<rparr>
           | staged # rest \<Rightarrow>
               (case handleRunBody env cfg db staged st of
                  (st', None) \<Rightarrow> st'
                | (st', Some err) \<Rightarrow>
                    st'\<lparr>st_toasts := st_toasts st' @ [(''Run failed'', errorMessage err)]\<rparr>)))"

text \<open>Inputs for the examples: the defaults of the application and a run whose writer fails.\<close>

definition exampleDefaults :: Defaults where
  "exampleDefaults = \<lparr>cfg_baseInstanceIri = ''https://example.org/TableNova/id/'',
     cfg_basePredicateIri = ''https://example.org/TableNova/ns#'',
     cfg_baseRunIri = ''https://example.org/TableNova/run/'',
     cfg_prefixes = [(''xsd'', ''http://www.w3.org/2001/XMLSchema#'')]\<rparr>"

definition failingCodecs :: "string codecs" where
  "failingCodecs = \<lparr>n3_getQuads = (\<lambda>store. store),
     n3_write = (\<lambda>fmt prefixes quads. Inl (Rejected ''writer failed'')),
     jsonld_fromRDF = (\<lambda>text. Inr text), json_stringify = (\<lambda>doc. doc),
     json_stringifyNamed = (\<lambda>gi doc. doc)\<rparr>"

definition exampleDay :: js_date where
  "exampleDay = ValidDate \<lparr>utcFullYear = 2026, utcMonth = 10, utcDate = 3, utcHours = 14,
             utcMinutes = 5, utcSeconds = 59, utcMilliseconds = 7\<rparr>"

definition peopleFile :: StagedFile where
  "peopleFile = \<lparr>sf_id = ''staged-1'', sf_name = ''people.csv'', sf_options = exampleOptions\<rparr>"

definition failingEnv :: "string run_env" where
  "failingEnv = \<lparr>env_readTabular = (\<lambda>f. Inr raggedGrid), env_now = exampleDay,
     env_createdAt = exampleDay, env_runtime = nullRuntime, env_uuids = exampleSource,
     env_codecs = failingCodecs, env_putFault = None, env_listFault = None\<rparr>"

definition readyState :: app_state where
  "readyState = \<lparr>st_db = Some [], st_stagedFiles = [peopleFile], st_lastOutput = None, st_toasts = []\<rparr>"

text \<open>The records of a result, and the records emitted for each data row, in row order.\<close>

definition quadsOf :: "js_error + n3_store \<times> QuadRecord list \<Rightarrow> QuadRecord list option" where
  "quadsOf res = (case res of Inl e \<Rightarrow> None | Inr (store, records) \<Rightarrow> Some records)"

definition recordsByRow ::
    "TabularData \<Rightarrow> FileOptions \<Rightarrow> string \<Rightarrow> js_object \<Rightarrow> string
      \<Rightarrow> (string \<Rightarrow> nat \<Rightarrow> 'src \<Rightarrow> string \<times> 'src) \<Rightarrow> (string \<Rightarrow> string \<Rightarrow> js_error + rdf_term)
      \<Rightarrow> 'src \<Rightarrow> QuadRecord list list" where
  "recordsByRow tabular options baseInstanceIri predicateIris graphIri mint coerce src =
     map (map snd)
       (rowGroups mint coerce options baseInstanceIri predicateIris graphIri
          (Object_keys predicateIris) 0 (dataRowsOf tabular options) src)"

text \<open>A grid in which no row is longer than the header.\<close>

definition peopleGrid :: TabularData where
  "peopleGrid = \<lparr>tab_header = Some [''first'', ''last''],
     tab_rows = [[''Ada'', ''Lovelace''], [''Alan'', []], [''Grace'']]\<rparr>"

definition peoplePredicateIris :: js_object where
  "peoplePredicateIris =
     buildPredicateIrisForColumns
       (buildColumnKeys (tab_header peopleGrid) (tab_rows peopleGrid) (opt_treatFirstRowAsHeader exampleOptions))
       (opt_predicate exampleOptions) ''https://example.org/TableNova/ns#''"

text \<open>The same grid read without a header row: its first row is data.\<close>

definition noHeaderOptions :: FileOptions where
  "noHeaderOptions = \<lparr>opt_treatFirstRowAsHeader = False, opt_delimiterHint = None,
     opt_predicate = \<lparr>prefixHas = True, casing = camelCase, whenNoHeader = ordinal\<rparr>,
     opt_datatypesByColumnKey = Map.empty\<rparr>"

definition columnPredicateIris :: js_object where
  "columnPredicateIris =
     buildPredicateIrisForColumns
       (buildColumnKeys (tab_header peopleGrid) (tab_rows peopleGrid) (opt_treatFirstRowAsHeader noHeaderOptions))
       (opt_predicate noHeaderOptions) ''https://example.org/TableNova/ns#''"

section \<open>Properties of the string primitives\<close>

lemma set_replaceRuns: "set (replaceRuns P rep s) \<subseteq> set rep \<union> {c \<in> set s. \<not> P c}"
proof (induction P rep s rule: replaceRuns.induct)
  case (1 P rep)
  show ?case by simp
next
  case (2 P rep c cs)
  show ?case
  proof (cases "P c")
    case True
    have "set (dropWhile P cs) \<subseteq> set cs"
      by (auto dest: set_dropWhileD)
    with True 2(1) show ?thesis by auto
  next
    case False
    with 2(2) show ?thesis by auto
  qed
qed

lemma set_trim: "set (trim s) \<subseteq> set s"
  unfolding trim_def by (auto dest!: set_dropWhileD)

lemma trim_all_space:
  assumes "list_all isSpace s"
  shows "trim s = []"
proof -
  have "dropWhile isSpace s = []"
    unfolding dropWhile_eq_Nil_conv using assms by (simp only: list_all_iff)
  then show ?thesis unfolding trim_def by (simp only: rev.simps dropWhile.simps)
qed

lemma space_facts: "isSpace (CHR '' '')" "\<not> isAlnum (CHR '' '')"
  by (simp_all add: isSpace_def isAlnum_def isUpperAZ_def isLowerAZ_def isDigit_def code_def)

lemma tokenizeWords_no_alnum:
  assumes "list_all (\<lambda>c. \<not> isAlnum c) phrase"
  shows "tokenizeWords phrase = []"
proof -
  define s1 where "s1 = replaceRuns (\<lambda>c. c = CHR ''_'' \<or> c = CHR ''-'') '' '' phrase"
  define s2 where "s2 = replaceRuns (\<lambda>c. \<not> (isAlnum c \<or> c = CHR '' '')) '' '' s1"
  define s3 where "s3 = replaceRuns isSpace '' '' s2"
  have a1: "set s1 \<subseteq> {c. \<not> isAlnum c}"
    using set_replaceRuns [of "\<lambda>c. c = CHR ''_'' \<or> c = CHR ''-''" "'' ''" phrase] assms space_facts(2)
    unfolding s1_def by (auto simp: list_all_iff)
  have a2: "set s2 \<subseteq> {CHR '' ''}"
    using set_replaceRuns [of "\<lambda>c. \<not> (isAlnum c \<or> c = CHR '' '')" "'' ''" s1] a1
    unfolding s2_def by auto
  have a3: "set s3 \<subseteq> {CHR '' ''}"
    using set_replaceRuns [of isSpace "'' ''" s2] a2
    unfolding s3_def by auto
  have "list_all isSpace s3"
    unfolding list_all_iff
  proof
    fix c assume "c \<in> set s3"
    with a3 have "c = CHR '' ''" by blast
    then show "isSpace c" by (simp only: space_facts(1))
  qed
  then have "trim s3 = []"
    by (rule trim_all_space)
  then show ?thesis
    unfolding tokenizeWords_def s1_def s2_def s3_def by simp
qed


section \<open>Predicate local names\<close>

text \<open>
  Claim C6. For the column key "email address", \<open>buildPredicateLocalName\<close> returns
  "hasEmailAddress" with the has-prefix and camelCase, "HasEmailAddress" with PascalCase,
  "has_email_address" with snake_case, and "emailAddress" without the prefix in camelCase;
  \<open>tokenizeWords\<close> maps "has email_address!!" to the tokens has, email, address. The
  function is a HOL function of the key and the options alone, hence pure.
\<close>

theorem buildPredicateLocalName_literal_cases:
  "buildPredicateLocalName ''email address''
      \<lparr>prefixHas = True, casing = camelCase, whenNoHeader = ordinal\<rparr> = ''hasEmailAddress''
   \<and> buildPredicateLocalName ''email address''
      \<lparr>prefixHas = True, casing = PascalCase, whenNoHeader = ordinal\<rparr> = ''HasEmailAddress''
   \<and> buildPredicateLocalName ''email address''
      \<lparr>prefixHas = True, casing = snake_case, whenNoHeader = ordinal\<rparr> = ''has_email_address''
   \<and> buildPredicateLocalName ''email address''
      \<lparr>prefixHas = False, casing = camelCase, whenNoHeader = ordinal\<rparr> = ''emailAddress''
   \<and> tokenizeWords ''has email_address!!'' = [''has'', ''email'', ''address'']"
  by code_simp

lemma map_of_obj_set:
  "map_of (obj_set obj k v) = (if k = ''__proto__'' then map_of obj else (map_of obj)(k \<mapsto> v))"
proof -
  have upd: "map_of (map (\<lambda>(k', v'). if k' = k then (k', v) else (k', v')) xs)
      = (if k \<in> set (map fst xs) then (map_of xs)(k \<mapsto> v) else map_of xs)" for xs
    by (induction xs) (auto simp: fun_eq_iff)
  show ?thesis
  proof (cases "k \<in> set (map fst obj)")
    case True
    then show ?thesis
      unfolding obj_set_def using upd [of obj] by simp
  next
    case False
    then have "map_of obj k = None"
      by (simp add: map_of_eq_None_iff)
    then show ?thesis
      unfolding obj_set_def using False
      by (auto simp: fun_eq_iff map_add_def split: option.splits)
  qed
qed

lemma obj_get_foldl_obj_set:
  "obj_get (foldl (\<lambda>out key. obj_set out key (f key)) obj ks) k =
     (if k \<in> set ks \<and> k \<noteq> ''__proto__'' then Some (f k) else obj_get obj k)"
proof (induction ks arbitrary: obj)
  case Nil
  show ?case by simp
next
  case (Cons a ks)
  show ?case
    unfolding foldl_Cons Cons.IH
    by (auto simp: obj_get_def map_of_obj_set)
qed

lemma obj_get_buildPredicateIrisForColumns:
  "obj_get (buildPredicateIrisForColumns columnKeys opts base) k =
     (if k \<in> set columnKeys \<and> k \<noteq> ''__proto__''
      then Some (base @ buildPredicateLocalName k opts) else None)"
  unfolding buildPredicateIrisForColumns_def
  by (simp add: obj_get_foldl_obj_set) (simp add: obj_get_def)

text \<open>
  Claim C9. A column key that is not blank and has no letter or digit (for example "!!!")
  tokenizes to no token at all when the has-prefix is off: the local name is then the
  empty string under snake_case, PascalCase and SHOUT_CASE, so that
  \<open>buildPredicateIrisForColumns\<close> maps the column to the bare base namespace; only
  camelCase falls back to "hasValue".
\<close>

theorem empty_local_name:
  assumes "trim key \<noteq> []" and "list_all (\<lambda>c. \<not> isAlnum c) key"
    and "\<not> prefixHas opts" and "key \<in> set columnKeys"
  shows "buildPredicateLocalName key opts = (if casing opts = camelCase then ''hasValue'' else [])
     \<and> obj_get (buildPredicateIrisForColumns columnKeys opts base) key =
         Some (if casing opts = camelCase then base @ ''hasValue'' else base)"
proof -
  have "list_all (\<lambda>c. \<not> isAlnum c) (trim key)"
    using assms(2) set_trim [of key] by (auto simp: list_all_iff)
  then have tok: "tokenizeWords (trim key) = []"
    by (rule tokenizeWords_no_alnum)
  have name: "buildPredicateLocalName key opts = (if casing opts = camelCase then ''hasValue'' else [])"
    unfolding buildPredicateLocalName_def using assms(1,3) tok
    by (cases "casing opts") simp_all
  have "isAlnum (CHR ''p'')"
    by (simp add: isAlnum_def isLowerAZ_def code_def)
  then have "\<not> list_all (\<lambda>c. \<not> isAlnum c) ''__proto__''"
    by simp
  with assms(2) have "key \<noteq> ''__proto__''"
    by blast
  then have "obj_get (buildPredicateIrisForColumns columnKeys opts base) key =
      Some (base @ buildPredicateLocalName key opts)"
    using assms(4) by (simp add: obj_get_buildPredicateIrisForColumns)
  with name show ?thesis
    by simp
qed

theorem empty_local_name_witness:
  "trim ''!!!'' \<noteq> [] \<and> list_all (\<lambda>c. \<not> isAlnum c) ''!!!''
   \<and> buildPredicateLocalName ''!!!'' \<lparr>prefixHas = False, casing = snake_case, whenNoHeader = ordinal\<rparr> = []
   \<and> obj_get (buildPredicateIrisForColumns [''name'', ''!!!'']
        \<lparr>prefixHas = False, casing = snake_case, whenNoHeader = ordinal\<rparr> ''https://example.org/TableNova/'') ''!!!''
       = Some ''https://example.org/TableNova/''"
proof -
  have h1: "trim ''!!!'' \<noteq> []" by code_simp
  have h2: "list_all (\<lambda>c. \<not> isAlnum c) ''!!!''" by code_simp
  have h3: "\<not> prefixHas \<lparr>prefixHas = False, casing = snake_case, whenNoHeader = ordinal\<rparr>" by simp
  have h4: "''!!!'' \<in> set [''name'', ''!!!'']" by simp
  have "buildPredicateLocalName ''!!!'' \<lparr>prefixHas = False, casing = snake_case, whenNoHeader = ordinal\<rparr> = []
   \<and> obj_get (buildPredicateIrisForColumns [''name'', ''!!!'']
        \<lparr>prefixHas = False, casing = snake_case, whenNoHeader = ordinal\<rparr> ''https://example.org/TableNova/'') ''!!!''
       = Some ''https://example.org/TableNova/''"
    using empty_local_name [OF h1 h2 h3 h4, of "''https://example.org/TableNova/''"] by simp
  with h1 h2 show ?thesis by blast
qed

section \<open>Column keys\<close>

lemma foldr_max_Max: "foldr max xs (0::nat) = Max (insert 0 (set xs))"
proof (induction xs)
  case Nil
  show ?case by simp
next
  case (Cons a xs)
  have "Max (insert 0 (set (a # xs))) = Max (insert a (insert 0 (set xs)))"
    by (simp add: insert_commute)
  also have "\<dots> = max a (Max (insert 0 (set xs)))"
    by (rule Max_insert) auto
  finally show ?case using Cons by simp
qed

lemma lettersLoop_acc: "lettersLoop n s = lettersLoop n [] @ s"
proof (induction "nat (n + 1)" arbitrary: n s rule: less_induct)
  case less
  show ?case
  proof (cases "n \<ge> 0")
    case True
    define m where "m = n div 26 - 1"
    define c where "c = char_of (nat (n mod 26 + 65))"
    have lt: "nat (m + 1) < nat (n + 1)"
      using True unfolding m_def by simp
    have "lettersLoop n s = lettersLoop m (c # s)"
      using True unfolding m_def c_def by (subst lettersLoop.simps) simp
    also have "\<dots> = lettersLoop m [] @ (c # s)"
      using less [OF lt] .
    also have "\<dots> = (lettersLoop m [] @ [c]) @ s"
      by simp
    also have "lettersLoop m [] @ [c] = lettersLoop m [c]"
      using less [OF lt, of "[c]"] by simp
    also have "lettersLoop m [c] = lettersLoop n []"
      using True unfolding m_def c_def by (subst (2) lettersLoop.simps) simp
    finally show ?thesis .
  next
    case False
    then show ?thesis by (simp add: lettersLoop.simps)
  qed
qed

lemma lettersLoop_step:
  "n \<ge> 0 \<Longrightarrow> lettersLoop n [] = lettersLoop (n div 26 - 1) [] @ [char_of (nat (n mod 26 + 65))]"
  by (subst lettersLoop.simps, subst lettersLoop_acc) simp

lemma code_letter: "0 \<le> k \<Longrightarrow> k < 26 \<Longrightarrow> int (code (char_of (nat (k + 65)))) = k + 65"
  by (simp add: code_def nat_mod_distrib)

lemma spreadsheetColumnNumber_snoc:
  "spreadsheetColumnNumber (s @ [c]) = 26 * spreadsheetColumnNumber s + (int (code c) - 64)"
  by (simp add: spreadsheetColumnNumber_def)

lemma lettersLoop_value: "n \<ge> -1 \<Longrightarrow> spreadsheetColumnNumber (lettersLoop n []) = n + 1"
proof (induction "nat (n + 1)" arbitrary: n rule: less_induct)
  case less
  show ?case
  proof (cases "n \<ge> 0")
    case True
    define m where "m = n div 26 - 1"
    have lt: "nat (m + 1) < nat (n + 1)" and ge: "m \<ge> -1"
      using True unfolding m_def by simp_all
    have "spreadsheetColumnNumber (lettersLoop n []) = 26 * (m + 1) + (n mod 26 + 65 - 64)"
      using True less(1) [OF lt ge]
      by (simp add: lettersLoop_step spreadsheetColumnNumber_snoc code_letter m_def)
    then show ?thesis unfolding m_def by simp
  next
    case False
    with less(2) have "n = -1" by simp
    then show ?thesis by (simp add: lettersLoop.simps spreadsheetColumnNumber_def)
  qed
qed

lemma isUpperAZ_letter: "0 \<le> k \<Longrightarrow> k < 26 \<Longrightarrow> isUpperAZ (char_of (nat (k + 65)))"
  using code_letter [of k] by (simp add: isUpperAZ_def)

lemma lettersLoop_upper: "list_all isUpperAZ (lettersLoop n [])"
proof (induction "nat (n + 1)" arbitrary: n rule: less_induct)
  case less
  show ?case
  proof (cases "n \<ge> 0")
    case True
    have lt: "nat (n div 26 - 1 + 1) < nat (n + 1)"
      using True by simp
    show ?thesis
      using True less [OF lt] by (simp add: lettersLoop_step isUpperAZ_letter)
  next
    case False
    then show ?thesis by (simp add: lettersLoop.simps)
  qed
qed

text \<open>
  Claim C8. \<open>toExcelLetters\<close> maps 0, 25, 26, 27 to A, Z, AA, AB. Without a header row to
  use, \<open>buildColumnKeys\<close> returns one key per column up to the largest cell count of the
  header (if present) and the rows, the key of index \<open>i\<close> being "Column" followed by
  \<open>toExcelLetters i\<close>; these letters are capitals and denote column number \<open>i + 1\<close> in
  spreadsheet lettering.
\<close>

theorem toExcelLetters_columns:
  "toExcelLetters 0 = ''A'' \<and> toExcelLetters 25 = ''Z''
   \<and> toExcelLetters 26 = ''AA'' \<and> toExcelLetters 27 = ''AB''
   \<and> buildColumnKeys header rows False =
       map (\<lambda>i. ''Column'' @ toExcelLetters (int i))
         [0 ..< Max (insert (case header of None \<Rightarrow> 0 | Some h \<Rightarrow> length h) (length ` set rows))]
   \<and> spreadsheetColumnNumber (toExcelLetters (int i)) = int i + 1
   \<and> list_all isUpperAZ (toExcelLetters (int i))"
proof -
  have vals: "toExcelLetters 0 = ''A'' \<and> toExcelLetters 25 = ''Z''
      \<and> toExcelLetters 26 = ''AA'' \<and> toExcelLetters 27 = ''AB''"
    by code_simp
  have mx: "foldr max ((case header of None \<Rightarrow> 0 | Some h \<Rightarrow> length h) # map length rows) 0
      = Max (insert (case header of None \<Rightarrow> 0 | Some h \<Rightarrow> length h) (length ` set rows))"
    by (simp add: foldr_max_Max insert_commute del: foldr.simps) 
  have keys: "buildColumnKeys header rows False =
       map (\<lambda>i. ''Column'' @ toExcelLetters (int i))
         [0 ..< Max (insert (case header of None \<Rightarrow> 0 | Some h \<Rightarrow> length h) (length ` set rows))]"
    unfolding buildColumnKeys_def syntheticKeys_def Let_def mx
    by (simp split: option.splits)
  have num: "spreadsheetColumnNumber (toExcelLetters (int i)) = int i + 1"
    by (simp add: toExcelLetters_def lettersLoop_value)
  have up: "list_all isUpperAZ (toExcelLetters (int i))"
    by (simp add: toExcelLetters_def lettersLoop_upper)
  from vals keys num up show ?thesis by blast
qed

text \<open>
  Claim C5 asks for pairwise distinct column keys. \<open>dedupeKeys\<close> numbers the repetitions of
  a label but does not check the numbered key against the labels of the header itself:
  for the header a, a, a_2 the second and the third key are both a_2, and the object of
  predicate identifiers built from these keys has two entries for three columns.
\<close>

theorem dedupeKeys_suffix_collision:
  "buildColumnKeys (Some [''a'', ''a'', ''a_2'']) [[''1'', ''2'', ''3'']] True = [''a'', ''a_2'', ''a_2'']
   \<and> \<not> distinct (buildColumnKeys (Some [''a'', ''a'', ''a_2'']) [[''1'', ''2'', ''3'']] True)
   \<and> Object_keys (buildPredicateIrisForColumns
         (buildColumnKeys (Some [''a'', ''a'', ''a_2'']) [[''1'', ''2'', ''3'']] True)
         \<lparr>prefixHas = True, casing = camelCase, whenNoHeader = ordinal\<rparr>
         ''https://example.org/TableNova/'') = [''a'', ''a_2'']"
  by code_simp

section \<open>Decimal digits and date stamps\<close>

lemma code_digitChar: "d < 10 \<Longrightarrow> code (digitChar d) = 48 + d"
  by (simp add: code_def digitChar_def)

lemma isDigit_digitChar: "d < 10 \<Longrightarrow> isDigit (digitChar d)"
  by (simp add: isDigit_def code_digitChar)

lemma numericValue_snoc: "numericValue (s @ [c]) = 10 * numericValue s + (int (code c) - 48)"
  by (simp add: numericValue_def)

lemma numericValue_decimal: "numericValue (decimal n) = int n"
proof (induction n rule: decimal.induct)
  case (1 n)
  show ?case
  proof (cases "n < 10")
    case True
    then show ?thesis
      by (subst decimal.simps) (simp add: numericValue_def code_digitChar)
  next
    case False
    then have "numericValue (decimal n) = 10 * int (n div 10) + int (n mod 10)"
      using 1 by (subst decimal.simps) (simp add: numericValue_snoc code_digitChar)
    then show ?thesis by presburger
  qed
qed

lemma decimal_digits: "list_all isDigit (decimal n)"
proof (induction n rule: decimal.induct)
  case (1 n)
  show ?case
  proof (cases "n < 10")
    case True
    then show ?thesis
      by (subst decimal.simps) (simp add: isDigit_digitChar)
  next
    case False
    then show ?thesis
      using 1 by (subst decimal.simps) (simp add: isDigit_digitChar)
  qed
qed

lemma decimal_inj:
  assumes "decimal m = decimal n"
  shows "m = n"
proof -
  have "numericValue (decimal m) = numericValue (decimal n)"
    using assms by (rule arg_cong)
  then have "int m = int n"
    by (simp only: numericValue_decimal)
  then show ?thesis by simp
qed

lemma length_decimal_le: "0 < k \<Longrightarrow> n < 10 ^ k \<Longrightarrow> length (decimal n) \<le> k"
proof (induction n arbitrary: k rule: decimal.induct)
  case (1 n)
  show ?case
  proof (cases "n < 10")
    case True
    then show ?thesis
      using 1(2) by (subst decimal.simps) simp
  next
    case False
    obtain j where k: "k = Suc j"
      using 1(2) by (cases k) auto
    have "j \<noteq> 0"
      using False 1(3) k by (cases j) auto
    moreover have "n div 10 < 10 ^ j"
      using 1(3) k by (simp add: less_mult_imp_div_less mult.commute)
    ultimately have "length (decimal (n div 10)) \<le> j"
      using 1(1) [OF False, of j] by simp
    then show ?thesis
      using False k by (subst decimal.simps) simp
  qed
qed

lemma numericValue_zeros: "numericValue (replicate j (CHR ''0'') @ s) = numericValue s"
proof -
  have "foldl (\<lambda>a c. 10 * a + (int (code c) - 48)) 0 (replicate j (CHR ''0'')) = 0"
    by (induction j) (simp_all add: code_def)
  then show ?thesis
    by (simp add: numericValue_def)
qed

lemma numericValue_padStart: "numericValue (padStart k (decimal n)) = int n"
  by (simp add: padStart_def numericValue_zeros numericValue_decimal)

lemma length_padStart: "length s \<le> k \<Longrightarrow> length (padStart k s) = k"
  by (simp add: padStart_def)

lemma length_padStart_decimal: "0 < k \<Longrightarrow> n < 10 ^ k \<Longrightarrow> length (padStart k (decimal n)) = k"
  by (simp add: length_padStart length_decimal_le)

lemma padStart_decimal_inj:
  assumes "padStart k (decimal m) = padStart k (decimal n)"
  shows "m = n"
proof -
  have "numericValue (padStart k (decimal m)) = numericValue (padStart k (decimal n))"
    using assms by (rule arg_cong)
  then have "int m = int n"
    by (simp only: numericValue_padStart)
  then show ?thesis by simp
qed

lemma dateStamp_parts:
  assumes "plainDay f"
  shows "length (padStart 4 (decimal (nat (utcFullYear f)))) = 4"
    and "length (padStart 2 (decimal (utcMonth f + 1))) = 2"
    and "length (padStart 2 (decimal (utcDate f))) = 2"
proof -
  have "nat (utcFullYear f) < 10 ^ 4" "utcMonth f + 1 < 10 ^ 2" "utcDate f < 10 ^ 2"
    using assms unfolding plainDay_def by auto
  then show "length (padStart 4 (decimal (nat (utcFullYear f)))) = 4"
    and "length (padStart 2 (decimal (utcMonth f + 1))) = 2"
    and "length (padStart 2 (decimal (utcDate f))) = 2"
    by (simp_all only: length_padStart_decimal zero_less_numeral)
qed

lemma length_dateStamp:
  assumes "plainDay f"
  shows "length (dateStamp f) = 10"
  unfolding dateStamp_def length_append dateStamp_parts [OF assms] by simp

lemma dateStamp_inj:
  assumes "plainDay f" and "plainDay g" and "dateStamp f = dateStamp g"
  shows "utcFullYear f = utcFullYear g \<and> utcMonth f = utcMonth g \<and> utcDate f = utcDate g"
proof -
  have eq: "padStart 4 (decimal (nat (utcFullYear f))) @ (''-''
      @ padStart 2 (decimal (utcMonth f + 1)) @ ''-'' @ padStart 2 (decimal (utcDate f)))
    = padStart 4 (decimal (nat (utcFullYear g))) @ (''-''
      @ padStart 2 (decimal (utcMonth g + 1)) @ ''-'' @ padStart 2 (decimal (utcDate g)))"
    using assms(3) unfolding dateStamp_def by simp
  have y: "padStart 4 (decimal (nat (utcFullYear f))) = padStart 4 (decimal (nat (utcFullYear g)))"
    and rest: "padStart 2 (decimal (utcMonth f + 1)) @ (''-'' @ padStart 2 (decimal (utcDate f)))
      = padStart 2 (decimal (utcMonth g + 1)) @ (''-'' @ padStart 2 (decimal (utcDate g)))"
    using eq dateStamp_parts(1) [OF assms(1)] dateStamp_parts(1) [OF assms(2)]
    by (simp_all add: append_eq_append_conv)
  have m: "padStart 2 (decimal (utcMonth f + 1)) = padStart 2 (decimal (utcMonth g + 1))"
    and d: "padStart 2 (decimal (utcDate f)) = padStart 2 (decimal (utcDate g))"
    using rest dateStamp_parts(2) [OF assms(1)] dateStamp_parts(2) [OF assms(2)]
    by (simp_all add: append_eq_append_conv)
  have "nat (utcFullYear f) = nat (utcFullYear g)"
    using y by (rule padStart_decimal_inj)
  moreover have "utcMonth f + 1 = utcMonth g + 1"
    using m by (rule padStart_decimal_inj)
  moreover have "utcDate f = utcDate g"
    using d by (rule padStart_decimal_inj)
  moreover have "0 \<le> utcFullYear f" "0 \<le> utcFullYear g"
    using assms(1,2) unfolding plainDay_def by simp_all
  ultimately show ?thesis
    by linarith
qed

lemma buildRunGraphIri_plainDay:
  assumes "plainDay f"
  shows "buildRunGraphIri base filename (ValidDate f) =
    Inr (ensureTrailingSlash base @ dateStamp f @ ''/'' @ slugify (stripExtension filename))"
proof -
  have y: "\<not> (utcFullYear f = 0 \<and> utcMonth f = 1 \<and> utcDate f = 29)"
    "\<not> (0 \<le> utcFullYear f \<and> utcFullYear f \<le> 99)" "0 \<le> utcFullYear f \<and> utcFullYear f \<le> 9999"
    using assms unfolding plainDay_def by simp_all
  have "take 10 (dateStamp f @ rest) = dateStamp f" for rest
    using length_dateStamp [OF assms] by simp
  then have "take 10 (padStart 4 (decimal (nat (utcFullYear f))) @ ''-''
      @ padStart 2 (decimal (utcMonth f + 1)) @ ''-'' @ padStart 2 (decimal (utcDate f)) @ rest)
      = dateStamp f" for rest
    unfolding dateStamp_def by simp
  then show ?thesis
    unfolding buildRunGraphIri_def utcMidnight_def toISOString_def isoYear_def Let_def
    using y by simp
qed

subsection \<open>Letter case\<close>

lemma code_char_of: "n < 256 \<Longrightarrow> code (char_of n) = n"
  by (simp add: code_def)

lemma toLowerChar_code:
  "code (toLowerChar c) = (if isUpperAZ c then code c + 32 else code c)"
  by (simp add: toLowerChar_def isUpperAZ_def code_char_of)

lemma code_inj: "code a = code b \<Longrightarrow> a = b"
  by (simp add: code_def)

lemma toLowerChar_dot: "toLowerChar c = CHR ''.'' \<longleftrightarrow> c = CHR ''.''"
proof
  assume "toLowerChar c = CHR ''.''"
  then have "code (toLowerChar c) = 46"
    by (simp add: code_def)
  then have "code c = 46"
    by (simp add: toLowerChar_code isUpperAZ_def split: if_splits)
  then have "code c = code (CHR ''.'')"
    by (simp add: code_def)
  then show "c = CHR ''.''"
    by (rule code_inj)
next
  assume "c = CHR ''.''"
  then show "toLowerChar c = CHR ''.''"
    by (simp add: toLowerChar_def isUpperAZ_def code_def)
qed

lemma isSpace_toLowerChar: "isSpace (toLowerChar c) \<longleftrightarrow> isSpace c"
  by (auto simp: isSpace_def toLowerChar_code isUpperAZ_def split: if_splits)

lemma toLowerChar_idem: "toLowerChar (toLowerChar c) = toLowerChar c"
proof (cases "isUpperAZ c")
  case True
  then have "\<not> isUpperAZ (toLowerChar c)"
    by (simp add: isUpperAZ_def toLowerChar_code)
  then show ?thesis
    by (simp add: toLowerChar_def)
next
  case False
  then show ?thesis by (simp add: toLowerChar_def)
qed

lemma toLowerCase_idem: "toLowerCase (toLowerCase s) = toLowerCase s"
  by (simp add: toLowerCase_def toLowerChar_idem)

lemma trim_toLowerCase: "trim (toLowerCase s) = toLowerCase (trim s)"
proof -
  have d: "dropWhile isSpace (map toLowerChar xs) = map toLowerChar (dropWhile isSpace xs)" for xs
    by (simp add: dropWhile_map comp_def isSpace_toLowerChar)
  show ?thesis
    unfolding trim_def toLowerCase_def
    by (simp only: d rev_map)
qed

lemma stripExtension_toLowerCase:
  "stripExtension (toLowerCase f) = toLowerCase (stripExtension f)"
proof -
  have t: "takeWhile (\<lambda>c. c \<noteq> CHR ''.'') (map toLowerChar xs)
      = map toLowerChar (takeWhile (\<lambda>c. c \<noteq> CHR ''.'') xs)" for xs
    by (simp add: takeWhile_map comp_def toLowerChar_dot)
  have e: "rev (takeWhile (\<lambda>c. c \<noteq> CHR ''.'') (rev (map toLowerChar f)))
      = map toLowerChar (rev (takeWhile (\<lambda>c. c \<noteq> CHR ''.'') (rev f)))"
    by (simp only: rev_map t)
  show ?thesis
    unfolding stripExtension_def toLowerCase_def Let_def e
    by (simp add: take_map)
qed

lemma slugify_toLowerCase: "slugify (toLowerCase s) = slugify s"
  unfolding slugify_def
  by (simp only: trim_toLowerCase toLowerCase_idem)

lemma slug_ignores_case:
  assumes "toLowerCase filename = toLowerCase filename'"
  shows "slugify (stripExtension filename) = slugify (stripExtension filename')"
proof -
  have "slugify (stripExtension filename) = slugify (stripExtension (toLowerCase filename))"
    by (simp only: stripExtension_toLowerCase slugify_toLowerCase)
  also have "\<dots> = slugify (stripExtension (toLowerCase filename'))"
    by (simp only: assms)
  also have "\<dots> = slugify (stripExtension filename')"
    by (simp only: stripExtension_toLowerCase slugify_toLowerCase)
  finally show ?thesis .
qed

text \<open>
  Claim C4, as the code has it. The graph identifier is the base, the date stamp of the
  UTC day and the slug of the file name without its extension. For two dates whose UTC
  year has four digits (100 to 9999), two calls with the same base return the same
  identifier exactly when the slugs are equal and the UTC days are equal: the same file
  name on the same day gives the same identifier, a different day or a different slug a
  different one. File names that differ only in the case of their letters have the same
  slug, hence the same identifier on the same day.
\<close>

theorem buildRunGraphIri_same_iff:
  assumes "plainDay f" and "plainDay g"
  shows "(buildRunGraphIri base filename (ValidDate f) = buildRunGraphIri base filename' (ValidDate g)
     \<longleftrightarrow> slugify (stripExtension filename) = slugify (stripExtension filename')
          \<and> utcFullYear f = utcFullYear g \<and> utcMonth f = utcMonth g \<and> utcDate f = utcDate g)
   \<and> (toLowerCase filename = toLowerCase filename'
        \<longrightarrow> slugify (stripExtension filename) = slugify (stripExtension filename'))"
proof -
  have main: "buildRunGraphIri base filename (ValidDate f) = buildRunGraphIri base filename' (ValidDate g)
     \<longleftrightarrow> slugify (stripExtension filename) = slugify (stripExtension filename')
          \<and> utcFullYear f = utcFullYear g \<and> utcMonth f = utcMonth g \<and> utcDate f = utcDate g"
  proof
    assume "buildRunGraphIri base filename (ValidDate f) = buildRunGraphIri base filename' (ValidDate g)"
    then have "dateStamp f @ (''/'' @ slugify (stripExtension filename))
        = dateStamp g @ (''/'' @ slugify (stripExtension filename'))"
      by (simp add: buildRunGraphIri_plainDay assms)
    then have "dateStamp f = dateStamp g"
      and "slugify (stripExtension filename) = slugify (stripExtension filename')"
      using length_dateStamp [OF assms(1)] length_dateStamp [OF assms(2)]
      by (simp_all add: append_eq_append_conv)
    then show "slugify (stripExtension filename) = slugify (stripExtension filename')
            \<and> utcFullYear f = utcFullYear g \<and> utcMonth f = utcMonth g \<and> utcDate f = utcDate g"
      using dateStamp_inj [OF assms] by simp
  next
    assume "slugify (stripExtension filename) = slugify (stripExtension filename')
            \<and> utcFullYear f = utcFullYear g \<and> utcMonth f = utcMonth g \<and> utcDate f = utcDate g"
    then show "buildRunGraphIri base filename (ValidDate f) = buildRunGraphIri base filename' (ValidDate g)"
      by (simp add: buildRunGraphIri_plainDay assms dateStamp_def)
  qed
  have letter_case: "slugify (stripExtension filename) = slugify (stripExtension filename')"
    if "toLowerCase filename = toLowerCase filename'"
    using that by (rule slug_ignores_case)
  from main letter_case show ?thesis
    by blast
qed

theorem buildRunGraphIri_same_iff_witness:
  "plainDay \<lparr>utcFullYear = 2026, utcMonth = 10, utcDate = 3, utcHours = 14,
             utcMinutes = 5, utcSeconds = 59, utcMilliseconds = 7\<rparr>
   \<and> plainDay \<lparr>utcFullYear = 2026, utcMonth = 10, utcDate = 4, utcHours = 0,
             utcMinutes = 0, utcSeconds = 0, utcMilliseconds = 0\<rparr>
   \<and> buildRunGraphIri ''https://example.org/TableNova/run/'' ''report.csv''
        (ValidDate \<lparr>utcFullYear = 2026, utcMonth = 10, utcDate = 3, utcHours = 14,
             utcMinutes = 5, utcSeconds = 59, utcMilliseconds = 7\<rparr>)
     \<noteq> buildRunGraphIri ''https://example.org/TableNova/run/'' ''report.csv''
        (ValidDate \<lparr>utcFullYear = 2026, utcMonth = 10, utcDate = 4, utcHours = 0,
             utcMinutes = 0, utcSeconds = 0, utcMilliseconds = 0\<rparr>)
   \<and> ''Report.CSV'' \<noteq> ''report.csv''
   \<and> toLowerCase ''Report.CSV'' = toLowerCase ''report.csv''
   \<and> buildRunGraphIri ''https://example.org/TableNova/run/'' ''Report.CSV''
        (ValidDate \<lparr>utcFullYear = 2026, utcMonth = 10, utcDate = 3, utcHours = 14,
             utcMinutes = 5, utcSeconds = 59, utcMilliseconds = 7\<rparr>)
     = buildRunGraphIri ''https://example.org/TableNova/run/'' ''report.csv''
        (ValidDate \<lparr>utcFullYear = 2026, utcMonth = 10, utcDate = 3, utcHours = 14,
             utcMinutes = 5, utcSeconds = 59, utcMilliseconds = 7\<rparr>)"
proof -
  have h1: "plainDay \<lparr>utcFullYear = 2026, utcMonth = 10, utcDate = 3, utcHours = 14,
             utcMinutes = 5, utcSeconds = 59, utcMilliseconds = 7\<rparr>"
    by (simp add: plainDay_def)
  have h2: "plainDay \<lparr>utcFullYear = 2026, utcMonth = 10, utcDate = 4, utcHours = 0,
             utcMinutes = 0, utcSeconds = 0, utcMilliseconds = 0\<rparr>"
    by (simp add: plainDay_def)
  have h3: "''Report.CSV'' \<noteq> ''report.csv''"
    by simp
  have h4: "toLowerCase ''Report.CSV'' = toLowerCase ''report.csv''"
    by code_simp
  have c1: "buildRunGraphIri ''https://example.org/TableNova/run/'' ''report.csv''
        (ValidDate \<lparr>utcFullYear = 2026, utcMonth = 10, utcDate = 3, utcHours = 14,
             utcMinutes = 5, utcSeconds = 59, utcMilliseconds = 7\<rparr>)
     \<noteq> buildRunGraphIri ''https://example.org/TableNova/run/'' ''report.csv''
        (ValidDate \<lparr>utcFullYear = 2026, utcMonth = 10, utcDate = 4, utcHours = 0,
             utcMinutes = 0, utcSeconds = 0, utcMilliseconds = 0\<rparr>)"
    using buildRunGraphIri_same_iff [OF h1 h2, of "''https://example.org/TableNova/run/''"
        "''report.csv''" "''report.csv''"]
    by simp
  note t = buildRunGraphIri_same_iff [OF h1 h1, of "''https://example.org/TableNova/run/''"
        "''Report.CSV''" "''report.csv''"]
  have "slugify (stripExtension ''Report.CSV'') = slugify (stripExtension ''report.csv'')"
    using t h4 by blast
  then have c2: "buildRunGraphIri ''https://example.org/TableNova/run/'' ''Report.CSV''
        (ValidDate \<lparr>utcFullYear = 2026, utcMonth = 10, utcDate = 3, utcHours = 14,
             utcMinutes = 5, utcSeconds = 59, utcMilliseconds = 7\<rparr>)
     = buildRunGraphIri ''https://example.org/TableNova/run/'' ''report.csv''
        (ValidDate \<lparr>utcFullYear = 2026, utcMonth = 10, utcDate = 3, utcHours = 14,
             utcMinutes = 5, utcSeconds = 59, utcMilliseconds = 7\<rparr>)"
    using t by blast
  from h1 h2 h3 h4 c1 c2 show ?thesis
    by blast
qed

text \<open>
  Claim C4 as stated fails for different file names: the extension is stripped and the
  slug is lower case, so report.csv and report.xlsx get the same identifier on the same
  day.
\<close>

theorem buildRunGraphIri_filename_collision:
  "''report.csv'' \<noteq> ''report.xlsx''
   \<and> buildRunGraphIri ''https://example.org/TableNova/run/'' ''report.csv''
        (ValidDate \<lparr>utcFullYear = 2026, utcMonth = 10, utcDate = 3, utcHours = 14,
             utcMinutes = 5, utcSeconds = 59, utcMilliseconds = 7\<rparr>)
     = buildRunGraphIri ''https://example.org/TableNova/run/'' ''report.xlsx''
        (ValidDate \<lparr>utcFullYear = 2026, utcMonth = 10, utcDate = 3, utcHours = 14,
             utcMinutes = 5, utcSeconds = 59, utcMilliseconds = 7\<rparr>)"
  by code_simp

section \<open>Literal coercion\<close>

lemma toISOString_ValidDate: "\<exists>t. toISOString (ValidDate f) = Inr t \<and> t \<noteq> []"
  by (simp add: toISOString_def)

lemma toISOString_epoch: "toISOString epoch = Inr ''1970-01-01T00:00:00.000Z''"
  by code_simp

lemma toDateTimeLexical_Inr: "\<exists>t. toDateTimeLexical rt s = Inr t \<and> t \<noteq> []"
proof (cases "Date_of rt (trim s)")
  case InvalidDate
  then show ?thesis
    by (simp add: toDateTimeLexical_def timeIsFinite_def toISOString_epoch)
next
  case (ValidDate f)
  then show ?thesis
    using toISOString_ValidDate [of f] by (simp add: toDateTimeLexical_def timeIsFinite_def)
qed

lemma toDateTimeLexical_invalid:
  "Date_of rt (trim s) = InvalidDate \<Longrightarrow> toDateTimeLexical rt s = Inr ''1970-01-01T00:00:00.000Z''"
  by (simp add: toDateTimeLexical_def timeIsFinite_def toISOString_epoch)

lemma DataFactory_literal_shape:
  "\<exists>d. DataFactory_literal v (DataFactory_namedNode dt) = Literal v [] d \<and> d \<noteq> []"
  by (simp add: DataFactory_literal_def DataFactory_namedNode_def termValue_def xsd_string_def)

lemma DataFactory_literal_named:
  "dt \<noteq> [] \<Longrightarrow> DataFactory_literal v (DataFactory_namedNode dt) = Literal v [] dt"
  by (simp add: DataFactory_literal_def DataFactory_namedNode_def termValue_def)

lemma buildLiteralObject_cases:
  "buildLiteralObject rt val dt = Inr (NamedNode (trim val))
   \<or> (\<exists>lexical. buildLiteralObject rt val dt = Inr (DataFactory_literal lexical (DataFactory_namedNode dt)))"
proof -
  obtain t where "toDateTimeLexical rt (trim val) = Inr t"
    using toDateTimeLexical_Inr by blast
  then show ?thesis
    unfolding buildLiteralObject_def Let_def DataFactory_namedNode_def by auto
qed

lemma buildLiteralObject_Inr: "\<exists>t. buildLiteralObject rt val dt = Inr t"
  using buildLiteralObject_cases [of rt val dt] by blast

lemma buildLiteralObject_shape:
  assumes "buildLiteralObject rt val dt = Inr obj"
  shows "(\<exists>v. obj = NamedNode v) \<or> (\<exists>v d. obj = Literal v [] d \<and> d \<noteq> [])"
  using buildLiteralObject_cases [of rt val dt] DataFactory_literal_shape assms
  by (metis sum.inject(2))

lemma xsd_endsWith:
  "\<not> endsWith xsd_boolean ''#anyURI''" "endsWith xsd_boolean ''#boolean''"
  "\<not> endsWith xsd_integer ''#anyURI''" "\<not> endsWith xsd_integer ''#boolean''"
  "endsWith xsd_integer ''#integer''"
  "\<not> endsWith xsd_decimal ''#anyURI''" "\<not> endsWith xsd_decimal ''#boolean''"
  "\<not> endsWith xsd_decimal ''#integer''" "endsWith xsd_decimal ''#decimal''"
  "\<not> endsWith xsd_double ''#anyURI''" "\<not> endsWith xsd_double ''#boolean''"
  "\<not> endsWith xsd_double ''#integer''" "endsWith xsd_double ''#double''"
  "\<not> endsWith xsd_float ''#anyURI''" "\<not> endsWith xsd_float ''#boolean''"
  "\<not> endsWith xsd_float ''#integer''" "endsWith xsd_float ''#float''"
  "\<not> endsWith xsd_dateTime ''#anyURI''" "\<not> endsWith xsd_dateTime ''#boolean''"
  "\<not> endsWith xsd_dateTime ''#integer''" "\<not> endsWith xsd_dateTime ''#decimal''"
  "\<not> endsWith xsd_dateTime ''#double''" "\<not> endsWith xsd_dateTime ''#float''"
  "endsWith xsd_dateTime ''#dateTime''"
  by code_simp+

lemma xsd_nonempty:
  "xsd_boolean \<noteq> []" "xsd_integer \<noteq> []" "xsd_decimal \<noteq> []" "xsd_double \<noteq> []"
  "xsd_float \<noteq> []" "xsd_dateTime \<noteq> []" "xsd_string \<noteq> []"
  by (simp_all add: xsd_boolean_def xsd_integer_def xsd_decimal_def xsd_double_def xsd_float_def
      xsd_dateTime_def xsd_string_def)

lemma integer_abc: "toIntegerLexical rt ''abc'' = ''0''"
  by code_simp

lemma trim_trim: "trim (trim s) = trim s"
proof -
  have a: "dropWhile isSpace (dropWhile isSpace xs) = dropWhile isSpace xs" for xs
    by (induction xs) auto
  have c: "dropWhile isSpace (rev (dropWhile isSpace (rev xs))) = rev (dropWhile isSpace (rev (dropWhile isSpace xs)))" for xs
  proof (cases "\<forall>x \<in> set xs. isSpace x")
    case True
    then have e: "dropWhile isSpace xs = []" "dropWhile isSpace (rev xs) = []"
      by (simp_all add: dropWhile_eq_Nil_conv)
    show ?thesis unfolding e by simp
  next
    case False
    then obtain x where x: "x \<in> set xs" "\<not> isSpace x" by blast
    define pre where "pre = takeWhile isSpace xs"
    define mid where "mid = dropWhile isSpace xs"
    have xs: "xs = pre @ mid" by (simp add: pre_def mid_def)
    have mid_ne: "mid \<noteq> []" using x by (auto simp: mid_def dropWhile_eq_Nil_conv)
    have hd: "\<not> isSpace (hd mid)" using mid_ne by (simp add: mid_def hd_dropWhile)
    define suf where "suf = takeWhile isSpace (rev mid)"
    define core where "core = rev (dropWhile isSpace (rev mid))"
    have core_ne: "core \<noteq> []"
      using mid_ne hd unfolding core_def
      by (metis dropWhile_eq_Nil_conv hd_in_set rev_is_Nil_conv set_rev)
    have "hd core = hd mid"
    proof -
      have "mid = core @ rev suf"
        unfolding core_def suf_def by (metis rev_append rev_rev_ident takeWhile_dropWhile_id)
      then show ?thesis using core_ne by (metis hd_append2)
    qed
    then have hdc: "\<not> isSpace (hd core)" using hd by simp
    have d1: "dropWhile isSpace (rev xs) = dropWhile isSpace (rev mid) @ rev pre"
    proof -
      have "hd mid \<in> set (rev mid)" using mid_ne by simp
      then have "dropWhile isSpace (rev mid @ rev pre) = dropWhile isSpace (rev mid) @ rev pre"
        using hd by (rule dropWhile_append1)
      then show ?thesis by (subst xs) (simp only: rev_append)
    qed
    have "rev (dropWhile isSpace (rev xs)) = pre @ core"
      unfolding d1 core_def by simp
    then have lhs: "dropWhile isSpace (rev (dropWhile isSpace (rev xs))) = core"
      using core_ne hdc unfolding pre_def
      by (metis (no_types, lifting) dropWhile_append2 dropWhile_eq_self_iff set_takeWhileD)
    show ?thesis unfolding lhs by (simp add: core_def mid_def)
  qed
  show ?thesis
    unfolding trim_def using c [of s] a
    by (metis rev_rev_ident)
qed

lemma toLowerCase_Nil_iff: "toLowerCase s = [] \<longleftrightarrow> s = []"
  by (simp add: toLowerCase_def)

lemma toBooleanLexical_unrecognized:
  assumes "toLowerCase (trim s) \<notin> set [''1'', ''true'', ''yes'', ''y'', ''0'', ''false'', ''no'', ''n'']"
  shows "toBooleanLexical s = (if trim s = [] then ''false'' else ''true'')"
  using assms unfolding toBooleanLexical_def Let_def
  by (simp add: toLowerCase_Nil_iff)

text \<open>
  Claim C7. \<open>buildLiteralObject\<close> returns a term for every cell value and every datatype
  identifier: no branch raises (the only throwing call, \<open>toISOString\<close>, is guarded by the
  validity test and otherwise applied to the epoch). The value "abc" under \<open>xsd:integer\<close>
  gives the lexical form "0"; a value that \<open>Number\<close> reads as NaN gives "0" under
  \<open>xsd:decimal\<close>, \<open>xsd:double\<close> and \<open>xsd:float\<close>; a value that is none of the eight
  recognized words gives "true" under \<open>xsd:boolean\<close>, or "false" when it is empty; a value
  that \<open>Date\<close> cannot parse gives the Unix epoch instant under \<open>xsd:dateTime\<close>.
\<close>

theorem buildLiteralObject_never_fails:
  "(\<exists>t. buildLiteralObject rt v dt = Inr t)
   \<and> buildLiteralObject rt ''abc'' xsd_integer = Inr (Literal ''0'' [] xsd_integer)
   \<and> (Number_of rt (trim v) = NaN \<longrightarrow> dt \<in> set [xsd_decimal, xsd_double, xsd_float]
        \<longrightarrow> buildLiteralObject rt v dt = Inr (Literal ''0'' [] dt))
   \<and> (toLowerCase (trim v) \<notin> set [''1'', ''true'', ''yes'', ''y'', ''0'', ''false'', ''no'', ''n'']
        \<longrightarrow> buildLiteralObject rt v xsd_boolean
              = Inr (Literal (if trim v = [] then ''false'' else ''true'') [] xsd_boolean))
   \<and> (Date_of rt (trim v) = InvalidDate
        \<longrightarrow> buildLiteralObject rt v xsd_dateTime
              = Inr (Literal ''1970-01-01T00:00:00.000Z'' [] xsd_dateTime))"
proof -
  have total: "\<exists>t. buildLiteralObject rt v dt = Inr t"
    by (rule buildLiteralObject_Inr)
  have "trim ''abc'' = ''abc''"
    by code_simp
  then have int: "buildLiteralObject rt ''abc'' xsd_integer = Inr (Literal ''0'' [] xsd_integer)"
    unfolding buildLiteralObject_def Let_def
    by (simp add: xsd_endsWith integer_abc DataFactory_literal_named xsd_nonempty)
  have num: "buildLiteralObject rt v dt = Inr (Literal ''0'' [] dt)"
    if "Number_of rt (trim v) = NaN" and "dt \<in> set [xsd_decimal, xsd_double, xsd_float]"
  proof -
    have lex: "toNumberLexical rt (trim v) = ''0''"
      using that(1) by (simp add: toNumberLexical_def trim_trim Number_isFinite_def)
    have "dt = xsd_decimal \<or> dt = xsd_double \<or> dt = xsd_float"
      using that(2) by simp
    then show ?thesis
      unfolding buildLiteralObject_def Let_def
      by (auto simp: xsd_endsWith lex DataFactory_literal_named xsd_nonempty)
  qed
  have bool: "buildLiteralObject rt v xsd_boolean
      = Inr (Literal (if trim v = [] then ''false'' else ''true'') [] xsd_boolean)"
    if "toLowerCase (trim v) \<notin> set [''1'', ''true'', ''yes'', ''y'', ''0'', ''false'', ''no'', ''n'']"
  proof -
    have "toLowerCase (trim (trim v)) \<notin> set [''1'', ''true'', ''yes'', ''y'', ''0'', ''false'', ''no'', ''n'']"
      unfolding trim_trim using that .
    then have "toBooleanLexical (trim v) = (if trim (trim v) = [] then ''false'' else ''true'')"
      by (rule toBooleanLexical_unrecognized)
    then have "toBooleanLexical (trim v) = (if trim v = [] then ''false'' else ''true'')"
      unfolding trim_trim .
    then show ?thesis
      unfolding buildLiteralObject_def Let_def
      by (simp add: xsd_endsWith DataFactory_literal_named xsd_nonempty)
  qed
  have date: "buildLiteralObject rt v xsd_dateTime
      = Inr (Literal ''1970-01-01T00:00:00.000Z'' [] xsd_dateTime)"
    if "Date_of rt (trim v) = InvalidDate"
  proof -
    have "toDateTimeLexical rt (trim v) = Inr ''1970-01-01T00:00:00.000Z''"
      by (rule toDateTimeLexical_invalid) (unfold trim_trim, rule that)
    then show ?thesis
      unfolding buildLiteralObject_def Let_def
      by (simp add: xsd_endsWith DataFactory_literal_named xsd_nonempty)
  qed
  from total int num bool date show ?thesis
    by blast
qed

theorem buildLiteralObject_never_fails_witness:
  "Number_of nullRuntime (trim ''n/a'') = NaN
   \<and> xsd_double \<in> set [xsd_decimal, xsd_double, xsd_float]
   \<and> buildLiteralObject nullRuntime ''n/a'' xsd_double = Inr (Literal ''0'' [] xsd_double)
   \<and> toLowerCase (trim ''n/a'') \<notin> set [''1'', ''true'', ''yes'', ''y'', ''0'', ''false'', ''no'', ''n'']
   \<and> buildLiteralObject nullRuntime ''n/a'' xsd_boolean = Inr (Literal ''true'' [] xsd_boolean)
   \<and> Date_of nullRuntime (trim ''n/a'') = InvalidDate
   \<and> buildLiteralObject nullRuntime ''n/a'' xsd_dateTime
        = Inr (Literal ''1970-01-01T00:00:00.000Z'' [] xsd_dateTime)"
proof -
  have h1: "Number_of nullRuntime (trim ''n/a'') = NaN"
    by (simp add: nullRuntime_def)
  have h2: "xsd_double \<in> set [xsd_decimal, xsd_double, xsd_float]"
    by simp
  have h3: "toLowerCase (trim ''n/a'') \<notin> set [''1'', ''true'', ''yes'', ''y'', ''0'', ''false'', ''no'', ''n'']"
    by code_simp
  have h4: "Date_of nullRuntime (trim ''n/a'') = InvalidDate"
    by (simp add: nullRuntime_def)
  have h5: "trim ''n/a'' \<noteq> []"
    by code_simp
  note t = buildLiteralObject_never_fails [of nullRuntime "''n/a''" xsd_double]
  have c1: "buildLiteralObject nullRuntime ''n/a'' xsd_double = Inr (Literal ''0'' [] xsd_double)"
    using t h1 h2 by blast
  have c2: "buildLiteralObject nullRuntime ''n/a'' xsd_boolean = Inr (Literal ''true'' [] xsd_boolean)"
    using t h3 h5 by presburger
  have c3: "buildLiteralObject nullRuntime ''n/a'' xsd_dateTime
        = Inr (Literal ''1970-01-01T00:00:00.000Z'' [] xsd_dateTime)"
    using t h4 by blast
  from h1 h2 h3 h4 c1 c2 c3 show ?thesis
    by blast
qed

lemma decimal_nonempty: "decimal n \<noteq> []"
  by (subst decimal.simps) simp

lemma toBooleanLexical_nonempty: "toBooleanLexical s \<noteq> []"
  by (simp add: toBooleanLexical_def Let_def)

lemma toIntegerLexical_nonempty: "runtime_ok rt \<Longrightarrow> toIntegerLexical rt s \<noteq> []"
  unfolding toIntegerLexical_def parseInt10_def Let_def runtime_ok_def Number_isFinite_def
    numberToString_def
  by (auto simp: decimal_nonempty split: js_number.splits)

lemma toNumberLexical_nonempty: "runtime_ok rt \<Longrightarrow> toNumberLexical rt s \<noteq> []"
  unfolding toNumberLexical_def Let_def runtime_ok_def Number_isFinite_def numberToString_def
  by (auto split: js_number.splits)

lemma termValue_literal: "termValue (DataFactory_literal lexical node) = lexical"
  by (simp add: termValue_def DataFactory_literal_def)

lemma termValue_namedNode: "termValue (DataFactory_namedNode v) = v"
  by (simp add: termValue_def DataFactory_namedNode_def)

lemma buildLiteralObject_value_nonempty:
  assumes "runtime_ok rt" and "trim val \<noteq> []" and "buildLiteralObject rt val dt = Inr obj"
  shows "termValue obj \<noteq> []"
proof -
  obtain t where t: "toDateTimeLexical rt (trim val) = Inr t" "t \<noteq> []"
    using toDateTimeLexical_Inr by blast
  show ?thesis
    using assms(2,3) t toIntegerLexical_nonempty [OF assms(1)] toNumberLexical_nonempty [OF assms(1)]
    unfolding buildLiteralObject_def Let_def
    by (auto simp: termValue_literal termValue_namedNode toBooleanLexical_nonempty
        split: if_splits)
qed

lemma runtime_ok_nullRuntime: "runtime_ok nullRuntime"
  by (simp add: runtime_ok_def nullRuntime_def)

section \<open>Quad assembly\<close>

lemma cellsLoop_emitted:
  assumes "\<And>ck e. ck \<in> set cks \<Longrightarrow> step ck \<noteq> Some (Inl e)"
  shows "cellsLoop step cks (store, records) =
    Inr (foldl addQuad store (map fst (emitted step cks)), records @ map snd (emitted step cks))"
  using assms
proof (induction cks arbitrary: store records)
  case Nil
  show ?case by (simp add: emitted_def)
next
  case (Cons ck cks)
  have ih: "cellsLoop step cks (st, rs) =
      Inr (foldl addQuad st (map fst (emitted step cks)), rs @ map snd (emitted step cks))" for st rs
    using Cons by simp
  show ?case
  proof (cases "step ck")
    case None
    then show ?thesis by (simp add: ih emitted_def)
  next
    case (Some res)
    show ?thesis
    proof (cases res)
      case (Inl e)
      with Some Cons.prems [of ck e] show ?thesis by simp
    next
      case (Inr qr)
      obtain q r where "qr = (q, r)" by (cases qr)
      with Some Inr show ?thesis by (simp add: ih emitted_def)
    qed
  qed
qed

lemma emitted_member:
  assumes "e \<in> set (emitted step cks)"
  shows "\<exists>ck \<in> set cks. step ck = Some (Inr e)"
  using assms
proof (induction cks)
  case Nil
  then show ?case by (simp add: emitted_def)
next
  case (Cons ck cks)
  then show ?case
    by (auto simp: emitted_def split: option.splits sum.splits)
qed

lemma cellStep_emits:
  assumes "cellStep coerce options predicateIris graphIri subjectIri row ck = Some (Inr (q, r))"
  shows "\<exists>pIri obj dt. coerce (row ! fst ck) dt = Inr obj \<and> trim (row ! fst ck) \<noteq> []
      \<and> q = Quad (DataFactory_namedNode subjectIri) (DataFactory_namedNode pIri) obj
              (DataFactory_namedNode graphIri)
      \<and> r = recordOf subjectIri pIri graphIri obj"
  using assms unfolding cellStep_def Let_def
  by (auto split: prod.splits option.splits if_splits sum.splits)

lemma cellStep_no_error:
  assumes "\<forall>val dt. \<exists>t. coerce val dt = Inr t"
  shows "cellStep coerce options predicateIris graphIri subjectIri row ck \<noteq> Some (Inl e)"
proof -
  obtain c key where ck: "ck = (c, key)" by (cases ck)
  define dtype where "dtype = (case opt_datatypesByColumnKey options key of
                                  None \<Rightarrow> xsd_string
                                | Some d \<Rightarrow> if d = [] then xsd_string else d)"
  obtain t where "coerce (row ! c) dtype = Inr t"
    using assms by blast
  then show ?thesis
    unfolding cellStep_def Let_def ck dtype_def
    by (auto split: option.splits)
qed

lemma cellStep_None_iff:
  assumes "\<forall>val dt. \<exists>t. coerce val dt = Inr t"
  shows "cellStep coerce options predicateIris graphIri subjectIri row ck = None
     \<longleftrightarrow> \<not> emitsCell predicateIris row ck"
proof -
  obtain c key where ck: "ck = (c, key)" by (cases ck)
  define dtype where "dtype = (case opt_datatypesByColumnKey options key of
                                  None \<Rightarrow> xsd_string
                                | Some d \<Rightarrow> if d = [] then xsd_string else d)"
  obtain t where "coerce (row ! c) dtype = Inr t"
    using assms by blast
  then show ?thesis
    unfolding cellStep_def emitsCell_def Let_def ck dtype_def
    by (auto split: option.splits)
qed

lemma length_emitted:
  assumes "\<forall>val dt. \<exists>t. coerce val dt = Inr t"
  shows "length (emitted (cellStep coerce options predicateIris graphIri subjectIri row) cks)
     = length (filter (emitsCell predicateIris row) cks)"
proof (induction cks)
  case Nil
  show ?case by (simp add: emitted_def)
next
  case (Cons ck cks)
  show ?case
  proof (cases "cellStep coerce options predicateIris graphIri subjectIri row ck")
    case None
    then have "\<not> emitsCell predicateIris row ck"
      using cellStep_None_iff [OF assms] by blast
    with None Cons show ?thesis by (simp add: emitted_def)
  next
    case (Some res)
    then have em: "emitsCell predicateIris row ck"
      using cellStep_None_iff [OF assms, of options predicateIris graphIri subjectIri row ck] by simp
    obtain qr where "res = Inr qr"
      using Some cellStep_no_error [OF assms, of options predicateIris graphIri subjectIri row ck]
      by (cases res) auto
    with Some em Cons show ?thesis by (simp add: emitted_def)
  qed
qed

lemma rowsLoop_groups:
  assumes "\<forall>val dt. \<exists>t. coerce val dt = Inr t"
  shows "rowsLoop mint coerce options baseInstanceIri predicateIris graphIri columnKeys r dataRows src
           (store, records) =
    Inr (foldl addQuad store (map fst (concat (rowGroups mint coerce options baseInstanceIri
              predicateIris graphIri columnKeys r dataRows src))),
         records @ map snd (concat (rowGroups mint coerce options baseInstanceIri
              predicateIris graphIri columnKeys r dataRows src)))"
proof (induction dataRows arbitrary: r src store records)
  case Nil
  show ?case by simp
next
  case (Cons row rest)
  obtain subjectIri src' where m: "mint baseInstanceIri r src = (subjectIri, src')"
    by (cases "mint baseInstanceIri r src")
  have inner: "cellsLoop (cellStep coerce options predicateIris graphIri subjectIri row)
        (zip [0 ..< length columnKeys] columnKeys) (store, records) =
      Inr (foldl addQuad store (map fst (emitted (cellStep coerce options predicateIris graphIri subjectIri row)
              (zip [0 ..< length columnKeys] columnKeys))),
           records @ map snd (emitted (cellStep coerce options predicateIris graphIri subjectIri row)
              (zip [0 ..< length columnKeys] columnKeys)))"
    by (rule cellsLoop_emitted) (rule cellStep_no_error [OF assms])
  show ?case
    by (simp add: m inner Cons.IH del: cellsLoop.simps)
qed

lemma length_rowGroups:
  "length (rowGroups mint coerce options baseInstanceIri predicateIris graphIri columnKeys r dataRows src)
     = length dataRows"
  by (induction dataRows arbitrary: r src) simp_all

lemma sum_length_rowGroups:
  assumes "\<forall>val dt. \<exists>t. coerce val dt = Inr t"
  shows "sum_list (map length (rowGroups mint coerce options baseInstanceIri predicateIris graphIri
            columnKeys r dataRows src))
     = sum_list (map (\<lambda>row. length (filter (emitsCell predicateIris row)
                 (zip [0 ..< length columnKeys] columnKeys))) dataRows)"
  by (induction dataRows arbitrary: r src) (simp_all add: length_emitted [OF assms])

lemma buildDatasetFromTabular_groups:
  assumes "\<forall>val dt. \<exists>t. coerce val dt = Inr t"
  shows "buildDatasetFromTabular tabular options baseInstanceIri predicateIris graphIri mint coerce src =
    Inr (foldl addQuad [] (map fst (concat (rowGroups mint coerce options baseInstanceIri
              predicateIris graphIri (Object_keys predicateIris) 0 (dataRowsOf tabular options) src))),
         map snd (concat (rowGroups mint coerce options baseInstanceIri
              predicateIris graphIri (Object_keys predicateIris) 0 (dataRowsOf tabular options) src)))"
  unfolding buildDatasetFromTabular_def
  by (simp add: rowsLoop_groups [OF assms])

lemma recordOf_fields:
  "rec_s (recordOf subjectIri pIri graphIri obj) = subjectIri"
  "rec_g (recordOf subjectIri pIri graphIri obj) = graphIri"
  "rec_oValue (recordOf subjectIri pIri graphIri obj) = termValue obj"
  by (simp_all add: recordOf_def)

lemma rowGroups_member:
  assumes "grp \<in> set (rowGroups mint coerce options baseInstanceIri predicateIris graphIri columnKeys
      r dataRows src)"
  shows "\<exists>subjectIri row. grp = emitted (cellStep coerce options predicateIris graphIri subjectIri row)
      (zip [0 ..< length columnKeys] columnKeys)"
  using assms
proof (induction dataRows arbitrary: r src)
  case Nil
  then show ?case by simp
next
  case (Cons row rest)
  then show ?case by auto
qed

lemma emitted_record:
  assumes "(q, rc) \<in> set (emitted (cellStep coerce options predicateIris graphIri subjectIri row) cks)"
  shows "\<exists>pIri obj val dt. coerce val dt = Inr obj \<and> trim val \<noteq> []
      \<and> q = Quad (DataFactory_namedNode subjectIri) (DataFactory_namedNode pIri) obj
              (DataFactory_namedNode graphIri)
      \<and> rc = recordOf subjectIri pIri graphIri obj"
proof -
  obtain ck where "cellStep coerce options predicateIris graphIri subjectIri row ck = Some (Inr (q, rc))"
    using emitted_member [OF assms] by blast
  then show ?thesis
    using cellStep_emits by blast
qed

lemma concat_rowGroups_values:
  assumes "runtime_ok rt"
    and "(q, rc) \<in> set (concat (rowGroups mint (buildLiteralObject rt) options baseInstanceIri
      predicateIris graphIri columnKeys r dataRows src))"
  shows "rec_oValue rc \<noteq> []"
proof -
  obtain grp where g: "grp \<in> set (rowGroups mint (buildLiteralObject rt) options baseInstanceIri
      predicateIris graphIri columnKeys r dataRows src)" and m: "(q, rc) \<in> set grp"
    using assms(2) by auto
  obtain subjectIri row where "grp = emitted (cellStep (buildLiteralObject rt) options predicateIris
      graphIri subjectIri row) (zip [0 ..< length columnKeys] columnKeys)"
    using rowGroups_member [OF g] by blast
  with m obtain pIri obj val dt where "buildLiteralObject rt val dt = Inr obj" "trim val \<noteq> []"
      "rc = recordOf subjectIri pIri graphIri obj"
    using emitted_record by blast
  then show ?thesis
    using buildLiteralObject_value_nonempty [OF assms(1)] by (simp add: recordOf_fields)
qed

lemma buildLiteralObject_total: "\<forall>val dt. \<exists>t. buildLiteralObject rt val dt = Inr t"
  using buildLiteralObject_Inr by blast

lemma length_filter_fst: "length (filter (\<lambda>ck. Q (fst ck)) zs) = length (filter Q (map fst zs))"
  by (induction zs) auto

lemma filter_zip_upt:
  assumes "length row \<le> length keys"
    and "list_all (\<lambda>key. case obj_get predicateIris key of None \<Rightarrow> False | Some p \<Rightarrow> p \<noteq> []) keys"
  shows "length (filter (emitsCell predicateIris row) (zip [0 ..< length keys] keys))
    = length (filter (\<lambda>cell. trim cell \<noteq> []) row)"
proof -
  have ok: "emitsCell predicateIris row (c, key) \<longleftrightarrow> c < length row \<and> trim (row ! c) \<noteq> []"
    if "key \<in> set keys" for c key
    using assms(2) that unfolding emitsCell_def list_all_iff
    by (auto split: option.splits)
  have "filter (emitsCell predicateIris row) (zip [0 ..< length keys] keys)
      = filter (\<lambda>ck. fst ck < length row \<and> trim (row ! fst ck) \<noteq> []) (zip [0 ..< length keys] keys)"
    by (rule filter_cong) (auto simp: ok dest: set_zip_rightD)
  then have "length (filter (emitsCell predicateIris row) (zip [0 ..< length keys] keys))
      = length (filter (\<lambda>c. c < length row \<and> trim (row ! c) \<noteq> []) (map fst (zip [0 ..< length keys] keys)))"
    by (simp only: length_filter_fst [of "\<lambda>c. c < length row \<and> trim (row ! c) \<noteq> []"])
  also have "\<dots> = length (filter (\<lambda>c. c < length row \<and> trim (row ! c) \<noteq> []) [0 ..< length keys])"
    by simp
  also have "\<dots> = length (filter (\<lambda>c. c < length row \<and> trim (row ! c) \<noteq> [])
        ([0 ..< length row] @ [length row ..< length keys]))"
  proof -
    have "[0 ..< length row + (length keys - length row)] = [0 ..< length row] @ [length row ..< length row + (length keys - length row)]"
      by (rule upt_add_eq_append) simp
    moreover have "length row + (length keys - length row) = length keys"
      using assms(1) by simp
    ultimately have "[0 ..< length keys] = [0 ..< length row] @ [length row ..< length keys]"
      by simp
    then show ?thesis by (rule arg_cong)
  qed
  also have "\<dots> = length (filter (\<lambda>c. trim (row ! c) \<noteq> []) [0 ..< length row])"
  proof -
    have "filter (\<lambda>c. c < length row \<and> trim (row ! c) \<noteq> []) [length row ..< length keys] = []"
      by (simp add: filter_empty_conv)
    moreover have "filter (\<lambda>c. c < length row \<and> trim (row ! c) \<noteq> []) [0 ..< length row]
        = filter (\<lambda>c. trim (row ! c) \<noteq> []) [0 ..< length row]"
      by (rule filter_cong) auto
    ultimately show ?thesis by simp
  qed
  also have "\<dots> = length (filter (\<lambda>cell. trim cell \<noteq> []) (map (\<lambda>c. row ! c) [0 ..< length row]))"
    by (simp add: comp_def)
  also have "\<dots> = length (filter (\<lambda>cell. trim cell \<noteq> []) row)"
    by (simp only: map_nth)
  finally show ?thesis .
qed

lemma emittedCount_fits:
  assumes "list_all (\<lambda>row. length row \<le> length (Object_keys predicateIris)) dataRows"
    and "list_all (\<lambda>key. case obj_get predicateIris key of None \<Rightarrow> False | Some p \<Rightarrow> p \<noteq> [])
           (Object_keys predicateIris)"
  shows "emittedCount predicateIris dataRows = nonBlankCells dataRows"
proof -
  have "map (\<lambda>row. length (filter (emitsCell predicateIris row)
                 (zip [0 ..< length (Object_keys predicateIris)] (Object_keys predicateIris)))) dataRows
      = map (\<lambda>row. length (filter (\<lambda>cell. trim cell \<noteq> []) row)) dataRows"
    using assms(1) by (intro map_cong refl filter_zip_upt [OF _ assms(2)]) (simp add: list_all_iff)
  then have "sum_list (map (\<lambda>row. length (filter (emitsCell predicateIris row)
                 (zip [0 ..< length (Object_keys predicateIris)] (Object_keys predicateIris)))) dataRows)
      = sum_list (map (\<lambda>row. length (filter (\<lambda>cell. trim cell \<noteq> []) row)) dataRows)"
    by (rule arg_cong)
  then show ?thesis
    unfolding emittedCount_def nonBlankCells_def .
qed

lemma quadCount_build:
  "quadCount (buildDatasetFromTabular tabular options baseInstanceIri predicateIris graphIri mint
      (buildLiteralObject rt) src) = Some (emittedCount predicateIris (dataRowsOf tabular options))"
  unfolding buildDatasetFromTabular_groups [OF buildLiteralObject_total] quadCount_def emittedCount_def
  by (simp add: length_concat sum_length_rowGroups [OF buildLiteralObject_total] comp_def)

lemma quadsOf_build:
  "quadsOf (buildDatasetFromTabular tabular options baseInstanceIri predicateIris graphIri mint
      (buildLiteralObject rt) src)
    = Some (concat (recordsByRow tabular options baseInstanceIri predicateIris graphIri mint
      (buildLiteralObject rt) src))"
  unfolding buildDatasetFromTabular_groups [OF buildLiteralObject_total] quadsOf_def recordsByRow_def
  by (simp add: map_concat)

lemma dataRowsOf_cases:
  "(opt_treatFirstRowAsHeader options \<longrightarrow> dataRowsOf tabular options = tab_rows tabular)
   \<and> (\<not> opt_treatFirstRowAsHeader options \<longrightarrow> tab_header tabular = Some h
        \<longrightarrow> dataRowsOf tabular options = h # tab_rows tabular)
   \<and> (\<not> opt_treatFirstRowAsHeader options \<longrightarrow> tab_header tabular = None
        \<longrightarrow> dataRowsOf tabular options = tab_rows tabular)"
  by (simp add: dataRowsOf_def)

text \<open>
  Claim C1, as the code has it. With the literal coercer of the application, quad assembly
  succeeds and emits one record for each pair of an effective data row and a column index
  below the number of column keys whose key has a non-empty predicate identifier and whose
  cell is present and not blank (\<open>emittedCount\<close>); cells beyond the last column key are
  not emitted. The effective data rows are the rows of the grid when the first row is
  treated as header, and the header row followed by the rows of the grid when it is not.
  When no row is longer than the list of column keys and every key has a non-empty
  predicate identifier, the count is the number of non-blank cells of the effective data
  rows. No record carries an empty object value.
\<close>

theorem quad_count:
  "quadCount (buildDatasetFromTabular tabular options baseInstanceIri predicateIris graphIri mint
      (buildLiteralObject rt) src) = Some (emittedCount predicateIris (dataRowsOf tabular options))
   \<and> (opt_treatFirstRowAsHeader options \<longrightarrow> dataRowsOf tabular options = tab_rows tabular)
   \<and> (\<not> opt_treatFirstRowAsHeader options \<longrightarrow> tab_header tabular = Some h
        \<longrightarrow> dataRowsOf tabular options = h # tab_rows tabular)
   \<and> (\<not> opt_treatFirstRowAsHeader options \<longrightarrow> tab_header tabular = None
        \<longrightarrow> dataRowsOf tabular options = tab_rows tabular)
   \<and> (list_all (\<lambda>row. length row \<le> length (Object_keys predicateIris)) (dataRowsOf tabular options)
        \<and> list_all (\<lambda>key. case obj_get predicateIris key of None \<Rightarrow> False | Some p \<Rightarrow> p \<noteq> [])
             (Object_keys predicateIris)
      \<longrightarrow> emittedCount predicateIris (dataRowsOf tabular options)
            = nonBlankCells (dataRowsOf tabular options))
   \<and> (runtime_ok rt \<longrightarrow>
        (case quadsOf (buildDatasetFromTabular tabular options baseInstanceIri predicateIris graphIri
                mint (buildLiteralObject rt) src) of
           None \<Rightarrow> False
         | Some quads \<Rightarrow> list_all (\<lambda>q. rec_oValue q \<noteq> []) quads))"
proof -
  have vals: "list_all (\<lambda>q. rec_oValue q \<noteq> [])
      (concat (recordsByRow tabular options baseInstanceIri predicateIris graphIri mint
        (buildLiteralObject rt) src))" if "runtime_ok rt"
    unfolding recordsByRow_def list_all_iff map_concat [symmetric]
    using concat_rowGroups_values [OF that] by force
  have rows: "(opt_treatFirstRowAsHeader options \<longrightarrow> dataRowsOf tabular options = tab_rows tabular)
   \<and> (\<not> opt_treatFirstRowAsHeader options \<longrightarrow> tab_header tabular = Some h
        \<longrightarrow> dataRowsOf tabular options = h # tab_rows tabular)
   \<and> (\<not> opt_treatFirstRowAsHeader options \<longrightarrow> tab_header tabular = None
        \<longrightarrow> dataRowsOf tabular options = tab_rows tabular)"
    by (rule dataRowsOf_cases)
  have count: "quadCount (buildDatasetFromTabular tabular options baseInstanceIri predicateIris graphIri mint
      (buildLiteralObject rt) src) = Some (emittedCount predicateIris (dataRowsOf tabular options))"
    by (rule quadCount_build)
  have fits: "emittedCount predicateIris (dataRowsOf tabular options)
            = nonBlankCells (dataRowsOf tabular options)"
    if "list_all (\<lambda>row. length row \<le> length (Object_keys predicateIris)) (dataRowsOf tabular options)
        \<and> list_all (\<lambda>key. case obj_get predicateIris key of None \<Rightarrow> False | Some p \<Rightarrow> p \<noteq> [])
             (Object_keys predicateIris)"
    using that emittedCount_fits by blast
  have nonempty: "(case quadsOf (buildDatasetFromTabular tabular options baseInstanceIri predicateIris graphIri
                mint (buildLiteralObject rt) src) of
           None \<Rightarrow> False
         | Some quads \<Rightarrow> list_all (\<lambda>q. rec_oValue q \<noteq> []) quads)" if "runtime_ok rt"
    using vals [OF that] by (simp add: quadsOf_build)
  from count rows fits nonempty show ?thesis
    by blast
qed

text \<open>
  Claim C1 as stated fails on a ragged grid: with the first row as header, a data row
  with more cells than the header has its extra cells dropped. The grid below has five
  non-blank data cells and four quads.
\<close>

theorem ragged_row_dropped:
  "quadCount (buildDatasetFromTabular raggedGrid exampleOptions ''https://example.org/TableNova/id/''
      raggedPredicateIris ''https://example.org/TableNova/run/2026-11-03/people''
      buildRowInstanceIri (buildLiteralObject nullRuntime) exampleSource) = Some 4
   \<and> nonBlankCells (dataRowsOf raggedGrid exampleOptions) = 5"
  by code_simp

theorem quad_count_witness:
  "\<not> opt_treatFirstRowAsHeader noHeaderOptions
   \<and> tab_header peopleGrid = Some [''first'', ''last'']
   \<and> dataRowsOf peopleGrid noHeaderOptions
       = [[''first'', ''last''], [''Ada'', ''Lovelace''], [''Alan'', []], [''Grace'']]
   \<and> list_all (\<lambda>row. length row \<le> length (Object_keys columnPredicateIris)) (dataRowsOf peopleGrid noHeaderOptions)
   \<and> list_all (\<lambda>key. case obj_get columnPredicateIris key of None \<Rightarrow> False | Some p \<Rightarrow> p \<noteq> [])
        (Object_keys columnPredicateIris)
   \<and> runtime_ok nullRuntime
   \<and> quadCount (buildDatasetFromTabular peopleGrid noHeaderOptions ''https://example.org/TableNova/id/''
        columnPredicateIris ''https://example.org/TableNova/run/2026-11-03/people''
        buildRowInstanceIri (buildLiteralObject nullRuntime) exampleSource)
       = Some 6
   \<and> nonBlankCells (dataRowsOf peopleGrid noHeaderOptions) = 6
   \<and> (case quadsOf (buildDatasetFromTabular peopleGrid noHeaderOptions ''https://example.org/TableNova/id/''
        columnPredicateIris ''https://example.org/TableNova/run/2026-11-03/people''
        buildRowInstanceIri (buildLiteralObject nullRuntime) exampleSource) of
         None \<Rightarrow> False
       | Some quads \<Rightarrow> list_all (\<lambda>q. rec_oValue q \<noteq> []) quads)
   \<and> opt_treatFirstRowAsHeader exampleOptions
   \<and> dataRowsOf peopleGrid exampleOptions = [[''Ada'', ''Lovelace''], [''Alan'', []], [''Grace'']]
   \<and> quadCount (buildDatasetFromTabular peopleGrid exampleOptions ''https://example.org/TableNova/id/''
        peoplePredicateIris ''https://example.org/TableNova/run/2026-11-03/people''
        buildRowInstanceIri (buildLiteralObject nullRuntime) exampleSource)
       = Some 4"
proof -
  have h0: "\<not> opt_treatFirstRowAsHeader noHeaderOptions"
    by (simp add: noHeaderOptions_def)
  have hh: "tab_header peopleGrid = Some [''first'', ''last'']"
    by (simp add: peopleGrid_def)
  have ht: "tab_rows peopleGrid = [[''Ada'', ''Lovelace''], [''Alan'', []], [''Grace'']]"
    by (simp add: peopleGrid_def)
  have h1: "list_all (\<lambda>row. length row \<le> length (Object_keys columnPredicateIris))
      (dataRowsOf peopleGrid noHeaderOptions)"
    by code_simp
  have h2: "list_all (\<lambda>key. case obj_get columnPredicateIris key of None \<Rightarrow> False | Some p \<Rightarrow> p \<noteq> [])
        (Object_keys columnPredicateIris)"
    by code_simp
  have h3: "runtime_ok nullRuntime"
    by (rule runtime_ok_nullRuntime)
  have h4: "nonBlankCells (dataRowsOf peopleGrid noHeaderOptions) = 6"
    by code_simp
  note t = quad_count [of peopleGrid noHeaderOptions "''https://example.org/TableNova/id/''"
      columnPredicateIris "''https://example.org/TableNova/run/2026-11-03/people''"
      buildRowInstanceIri nullRuntime exampleSource "[''first'', ''last'']"]
  have rows: "dataRowsOf peopleGrid noHeaderOptions
       = [[''first'', ''last''], [''Ada'', ''Lovelace''], [''Alan'', []], [''Grace'']]"
    using t h0 hh ht by metis
  have "quadCount (buildDatasetFromTabular peopleGrid noHeaderOptions ''https://example.org/TableNova/id/''
        columnPredicateIris ''https://example.org/TableNova/run/2026-11-03/people''
        buildRowInstanceIri (buildLiteralObject nullRuntime) exampleSource)
       = Some (nonBlankCells (dataRowsOf peopleGrid noHeaderOptions))"
    using t h1 h2 by metis
  then have c1: "quadCount (buildDatasetFromTabular peopleGrid noHeaderOptions ''https://example.org/TableNova/id/''
        columnPredicateIris ''https://example.org/TableNova/run/2026-11-03/people''
        buildRowInstanceIri (buildLiteralObject nullRuntime) exampleSource)
       = Some 6"
    unfolding h4 .
  have c2: "(case quadsOf (buildDatasetFromTabular peopleGrid noHeaderOptions ''https://example.org/TableNova/id/''
        columnPredicateIris ''https://example.org/TableNova/run/2026-11-03/people''
        buildRowInstanceIri (buildLiteralObject nullRuntime) exampleSource) of
         None \<Rightarrow> False
       | Some quads \<Rightarrow> list_all (\<lambda>q. rec_oValue q \<noteq> []) quads)"
    using t h3 by blast
  have g0: "opt_treatFirstRowAsHeader exampleOptions"
    by (simp add: exampleOptions_def)
  have g1: "list_all (\<lambda>row. length row \<le> length (Object_keys peoplePredicateIris))
      (dataRowsOf peopleGrid exampleOptions)"
    by code_simp
  have g2: "list_all (\<lambda>key. case obj_get peoplePredicateIris key of None \<Rightarrow> False | Some p \<Rightarrow> p \<noteq> [])
        (Object_keys peoplePredicateIris)"
    by code_simp
  have g4: "nonBlankCells (dataRowsOf peopleGrid exampleOptions) = 4"
    by code_simp
  note u = quad_count [of peopleGrid exampleOptions "''https://example.org/TableNova/id/''"
      peoplePredicateIris "''https://example.org/TableNova/run/2026-11-03/people''"
      buildRowInstanceIri nullRuntime exampleSource "[''first'', ''last'']"]
  have rows': "dataRowsOf peopleGrid exampleOptions = [[''Ada'', ''Lovelace''], [''Alan'', []], [''Grace'']]"
    using u g0 ht by metis
  have "quadCount (buildDatasetFromTabular peopleGrid exampleOptions ''https://example.org/TableNova/id/''
        peoplePredicateIris ''https://example.org/TableNova/run/2026-11-03/people''
        buildRowInstanceIri (buildLiteralObject nullRuntime) exampleSource)
       = Some (nonBlankCells (dataRowsOf peopleGrid exampleOptions))"
    using u g1 g2 by metis
  then have c3: "quadCount (buildDatasetFromTabular peopleGrid exampleOptions ''https://example.org/TableNova/id/''
        peoplePredicateIris ''https://example.org/TableNova/run/2026-11-03/people''
        buildRowInstanceIri (buildLiteralObject nullRuntime) exampleSource)
       = Some 4"
    unfolding g4 .
  from h0 hh rows h1 h2 h3 c1 h4 c2 g0 rows' c3 show ?thesis
    by blast
qed

section \<open>Row subjects\<close>

lemma isDigit_unreserved: "isDigit c \<Longrightarrow> isUriUnreserved c"
  by (simp add: isUriUnreserved_def isAlnum_def)

lemma encodeURIComponent_unreserved:
  "list_all isUriUnreserved s \<Longrightarrow> encodeURIComponent s = s"
  unfolding encodeURIComponent_def by (induction s) simp_all

lemma encodeURIComponent_decimal: "encodeURIComponent (decimal n) = decimal n"
proof -
  have "list_all isUriUnreserved (decimal n)"
    using decimal_digits [of n] by (auto simp: list_all_iff isDigit_unreserved)
  then show ?thesis by (rule encodeURIComponent_unreserved)
qed

lemma buildRowInstanceIri_eq:
  "fst (buildRowInstanceIri baseInstanceIri r src)
     = ensureTrailingSlash baseInstanceIri @ src 0 @ ''?row='' @ decimal r"
  "snd (buildRowInstanceIri baseInstanceIri r src) = (\<lambda>i. src (Suc i))"
  by (simp_all add: buildRowInstanceIri_def randomUUID_def encodeURIComponent_decimal)

lemma rowGroups_subject:
  assumes "j < length dataRows"
    and "(q, rc) \<in> set (rowGroups buildRowInstanceIri coerce options baseInstanceIri predicateIris
          graphIri columnKeys r dataRows src ! j)"
  shows "rec_s rc = ensureTrailingSlash baseInstanceIri @ src j @ ''?row='' @ decimal (r + j)
     \<and> rec_g rc = graphIri"
  using assms
proof (induction dataRows arbitrary: r src j)
  case Nil
  then show ?case by simp
next
  case (Cons row rest)
  show ?case
  proof (cases j)
    case 0
    then have "(q, rc) \<in> set (emitted (cellStep coerce options predicateIris graphIri
        (ensureTrailingSlash baseInstanceIri @ src 0 @ ''?row='' @ decimal r) row)
        (zip [0 ..< length columnKeys] columnKeys))"
      using Cons.prems(2) by (simp add: buildRowInstanceIri_eq)
    then show ?thesis
      using emitted_record 0 by (fastforce simp: recordOf_fields)
  next
    case (Suc j')
    then have "j' < length rest"
      and "(q, rc) \<in> set (rowGroups buildRowInstanceIri coerce options baseInstanceIri predicateIris
          graphIri columnKeys (Suc r) rest (\<lambda>i. src (Suc i)) ! j')"
      using Cons.prems by (simp_all add: buildRowInstanceIri_eq)
    then have "rec_s rc = ensureTrailingSlash baseInstanceIri @ src (Suc j') @ ''?row='' @ decimal (Suc r + j')
        \<and> rec_g rc = graphIri"
      by (rule Cons.IH)
    then show ?thesis
      using Suc by simp
  qed
qed

lemma digit_not_equals: "isDigit c \<Longrightarrow> c \<noteq> CHR ''=''"
  by (auto simp: isDigit_def code_def)

lemma last_segment:
  assumes "list_all isDigit d"
  shows "takeWhile (\<lambda>c. c \<noteq> CHR ''='') (rev (x @ ''?row='' @ d)) = rev d"
proof -
  have "rev (x @ ''?row='' @ d) = rev d @ (CHR ''='' # ''wor?'' @ rev x)"
    by simp
  moreover have "takeWhile (\<lambda>c. c \<noteq> CHR ''='') (rev d @ (CHR ''='' # ''wor?'' @ rev x)) = rev d"
    using assms by (intro takeWhile_tail [THEN trans]) (auto simp: list_all_iff digit_not_equals takeWhile_eq_all_conv)
  ultimately show ?thesis by simp
qed

lemma rowSubject_inj:
  assumes "rowSubject baseInstanceIri src r = rowSubject baseInstanceIri src r'"
  shows "r = r'"
proof -
  have "takeWhile (\<lambda>c. c \<noteq> CHR ''='') (rev (rowSubject baseInstanceIri src r))
      = takeWhile (\<lambda>c. c \<noteq> CHR ''='') (rev (rowSubject baseInstanceIri src r'))"
    using assms by simp
  then have "rev (decimal r) = rev (decimal r')"
    unfolding rowSubject_def
    using last_segment [OF decimal_digits, of "ensureTrailingSlash baseInstanceIri @ src r" r]
      last_segment [OF decimal_digits, of "ensureTrailingSlash baseInstanceIri @ src r'" r']
    by simp
  then have "decimal r = decimal r'"
    by simp
  then show ?thesis
    by (rule decimal_inj)
qed

lemma ensureTrailingSlash_last:
  "ensureTrailingSlash b \<noteq> [] \<and> last (ensureTrailingSlash b) = CHR ''/''"
  by (simp add: ensureTrailingSlash_def)

lemma ensureTrailingSlash_shape:
  "ensureTrailingSlash b = b \<or> ensureTrailingSlash b = b @ ''/''"
  by (simp add: ensureTrailingSlash_def)

text \<open>
  Claim C10. The records of one invocation are the records of its data rows in row order.
  Every record of row \<open>k\<close> has the supplied graph identifier as its graph and the subject
  minted for that row: the base instance namespace with a trailing slash ensured (the base
  itself when it ends in a slash, the base followed by a slash otherwise), the token drawn
  for the row, and "?row=" followed by the row index. Two different rows never have the
  same subject, whatever the tokens are.
\<close>

theorem row_subjects:
  "quadsOf (buildDatasetFromTabular tabular options baseInstanceIri predicateIris graphIri
      buildRowInstanceIri (buildLiteralObject rt) src)
     = Some (concat (recordsByRow tabular options baseInstanceIri predicateIris graphIri
         buildRowInstanceIri (buildLiteralObject rt) src))
   \<and> length (recordsByRow tabular options baseInstanceIri predicateIris graphIri
         buildRowInstanceIri (buildLiteralObject rt) src) = length (dataRowsOf tabular options)
   \<and> (k < length (dataRowsOf tabular options) \<longrightarrow>
        list_all (\<lambda>q. rec_s q = rowSubject baseInstanceIri src k \<and> rec_g q = graphIri)
          (recordsByRow tabular options baseInstanceIri predicateIris graphIri
             buildRowInstanceIri (buildLiteralObject rt) src ! k))
   \<and> (r \<noteq> r' \<longrightarrow> rowSubject baseInstanceIri src r \<noteq> rowSubject baseInstanceIri src r')
   \<and> rowSubject baseInstanceIri src k
       = ensureTrailingSlash baseInstanceIri @ src k @ ''?row='' @ decimal k
   \<and> ensureTrailingSlash baseInstanceIri \<noteq> []
   \<and> last (ensureTrailingSlash baseInstanceIri) = CHR ''/''
   \<and> (ensureTrailingSlash baseInstanceIri = baseInstanceIri
        \<or> ensureTrailingSlash baseInstanceIri = baseInstanceIri @ ''/'')"
proof -
  have len: "length (recordsByRow tabular options baseInstanceIri predicateIris graphIri
         buildRowInstanceIri (buildLiteralObject rt) src) = length (dataRowsOf tabular options)"
    by (simp add: recordsByRow_def length_rowGroups)
  have subj: "list_all (\<lambda>q. rec_s q = rowSubject baseInstanceIri src k \<and> rec_g q = graphIri)
          (recordsByRow tabular options baseInstanceIri predicateIris graphIri
             buildRowInstanceIri (buildLiteralObject rt) src ! k)"
    if k: "k < length (dataRowsOf tabular options)"
  proof -
    have "rec_s rc = rowSubject baseInstanceIri src k \<and> rec_g rc = graphIri"
      if "(q, rc) \<in> set (rowGroups buildRowInstanceIri (buildLiteralObject rt) options baseInstanceIri
          predicateIris graphIri (Object_keys predicateIris) 0 (dataRowsOf tabular options) src ! k)"
      for q rc
      using rowGroups_subject [OF k that] by (simp add: rowSubject_def)
    then show ?thesis
      unfolding recordsByRow_def list_all_iff using k
      by (auto simp: length_rowGroups)
  qed
  have inj: "rowSubject baseInstanceIri src r \<noteq> rowSubject baseInstanceIri src r'" if "r \<noteq> r'"
    using that rowSubject_inj by blast
  show ?thesis
  proof (intro conjI impI)
    show "quadsOf (buildDatasetFromTabular tabular options baseInstanceIri predicateIris graphIri
      buildRowInstanceIri (buildLiteralObject rt) src)
     = Some (concat (recordsByRow tabular options baseInstanceIri predicateIris graphIri
         buildRowInstanceIri (buildLiteralObject rt) src))"
      by (rule quadsOf_build)
  next
    show "length (recordsByRow tabular options baseInstanceIri predicateIris graphIri
         buildRowInstanceIri (buildLiteralObject rt) src) = length (dataRowsOf tabular options)"
      by (rule len)
  next
    assume "k < length (dataRowsOf tabular options)"
    then show "list_all (\<lambda>q. rec_s q = rowSubject baseInstanceIri src k \<and> rec_g q = graphIri)
          (recordsByRow tabular options baseInstanceIri predicateIris graphIri
             buildRowInstanceIri (buildLiteralObject rt) src ! k)"
      by (rule subj)
  next
    assume "r \<noteq> r'"
    then show "rowSubject baseInstanceIri src r \<noteq> rowSubject baseInstanceIri src r'"
      by (rule inj)
  next
    show "rowSubject baseInstanceIri src k
       = ensureTrailingSlash baseInstanceIri @ src k @ ''?row='' @ decimal k"
      by (simp add: rowSubject_def)
  next
    show "ensureTrailingSlash baseInstanceIri \<noteq> []"
      using ensureTrailingSlash_last by blast
  next
    show "last (ensureTrailingSlash baseInstanceIri) = CHR ''/''"
      using ensureTrailingSlash_last by blast
  next
    show "ensureTrailingSlash baseInstanceIri = baseInstanceIri
        \<or> ensureTrailingSlash baseInstanceIri = baseInstanceIri @ ''/''"
      by (rule ensureTrailingSlash_shape)
  qed
qed

theorem row_subjects_witness:
  "(1::nat) < length (dataRowsOf peopleGrid exampleOptions)
   \<and> list_all (\<lambda>q. rec_s q = ''https://example.org/TableNova/instance#/token1?row=1''
                    \<and> rec_g q = ''https://example.org/TableNova/run/2026-11-03/people'')
        (recordsByRow peopleGrid exampleOptions ''https://example.org/TableNova/instance#''
           peoplePredicateIris ''https://example.org/TableNova/run/2026-11-03/people''
           buildRowInstanceIri (buildLiteralObject nullRuntime) exampleSource ! 1)
   \<and> recordsByRow peopleGrid exampleOptions ''https://example.org/TableNova/instance#''
           peoplePredicateIris ''https://example.org/TableNova/run/2026-11-03/people''
           buildRowInstanceIri (buildLiteralObject nullRuntime) exampleSource ! 1 \<noteq> []
   \<and> (0::nat) \<noteq> 1
   \<and> rowSubject ''https://example.org/TableNova/instance#'' exampleSource 0
       \<noteq> rowSubject ''https://example.org/TableNova/instance#'' exampleSource 1
   \<and> rowSubject ''https://example.org/TableNova/instance#'' exampleSource 0
       = ''https://example.org/TableNova/instance#/token0?row=0''
   \<and> rowSubject ''https://example.org/TableNova/instance#'' exampleSource 1
       = ''https://example.org/TableNova/instance#/token1?row=1''"
proof -
  have h1: "(1::nat) < length (dataRowsOf peopleGrid exampleOptions)"
    by code_simp
  have h2: "(0::nat) \<noteq> 1"
    by simp
  have h3: "rowSubject ''https://example.org/TableNova/instance#'' exampleSource 1
       = ''https://example.org/TableNova/instance#/token1?row=1''"
    by code_simp
  have h4: "rowSubject ''https://example.org/TableNova/instance#'' exampleSource 0
       = ''https://example.org/TableNova/instance#/token0?row=0''"
    by code_simp
  have h5: "recordsByRow peopleGrid exampleOptions ''https://example.org/TableNova/instance#''
           peoplePredicateIris ''https://example.org/TableNova/run/2026-11-03/people''
           buildRowInstanceIri (buildLiteralObject nullRuntime) exampleSource ! 1 \<noteq> []"
    by code_simp
  note t = row_subjects [of peopleGrid exampleOptions "''https://example.org/TableNova/instance#''"
      peoplePredicateIris "''https://example.org/TableNova/run/2026-11-03/people''"
      nullRuntime exampleSource 1 0 1]
  have "list_all (\<lambda>q. rec_s q = rowSubject ''https://example.org/TableNova/instance#'' exampleSource 1
                    \<and> rec_g q = ''https://example.org/TableNova/run/2026-11-03/people'')
        (recordsByRow peopleGrid exampleOptions ''https://example.org/TableNova/instance#''
           peoplePredicateIris ''https://example.org/TableNova/run/2026-11-03/people''
           buildRowInstanceIri (buildLiteralObject nullRuntime) exampleSource ! 1)"
    using t h1 by blast
  then have c1: "list_all (\<lambda>q. rec_s q = ''https://example.org/TableNova/instance#/token1?row=1''
                    \<and> rec_g q = ''https://example.org/TableNova/run/2026-11-03/people'')
        (recordsByRow peopleGrid exampleOptions ''https://example.org/TableNova/instance#''
           peoplePredicateIris ''https://example.org/TableNova/run/2026-11-03/people''
           buildRowInstanceIri (buildLiteralObject nullRuntime) exampleSource ! 1)"
    unfolding h3 .
  have c2: "rowSubject ''https://example.org/TableNova/instance#'' exampleSource 0
       \<noteq> rowSubject ''https://example.org/TableNova/instance#'' exampleSource 1"
    using t h2 by blast
  from h1 h2 h3 h4 h5 c1 c2 show ?thesis
    by blast
qed

section \<open>Reload round trip\<close>

lemma quadOfRecord_recordOf:
  assumes "(\<exists>v. obj = NamedNode v) \<or> (\<exists>v d. obj = Literal v [] d \<and> d \<noteq> [])"
  shows "quadOfRecord (recordOf subjectIri pIri graphIri obj)
    = Quad (DataFactory_namedNode subjectIri) (DataFactory_namedNode pIri) obj
        (DataFactory_namedNode graphIri)"
  using assms
  by (auto simp: quadOfRecord_def recordOf_def isNamedNode_def termValue_def termDatatype_def
      termLanguage_def DataFactory_namedNode_def DataFactory_literal_def)

lemma emitted_roundtrip:
  assumes "e \<in> set (emitted (cellStep (buildLiteralObject rt) options predicateIris graphIri
      subjectIri row) cks)"
  shows "quadOfRecord (snd e) = fst e"
proof -
  obtain q rc where e: "e = (q, rc)" by (cases e)
  obtain pIri obj val dt where o: "buildLiteralObject rt val dt = Inr obj"
      and q: "q = Quad (DataFactory_namedNode subjectIri) (DataFactory_namedNode pIri) obj
              (DataFactory_namedNode graphIri)"
      and rc: "rc = recordOf subjectIri pIri graphIri obj"
    using emitted_record assms unfolding e by blast
  show ?thesis
    unfolding e q rc using quadOfRecord_recordOf [OF buildLiteralObject_shape [OF o]] by simp
qed

lemma rowGroups_roundtrip:
  "map quadOfRecord (map snd (concat (rowGroups mint (buildLiteralObject rt) options baseInstanceIri
      predicateIris graphIri columnKeys r dataRows src)))
   = map fst (concat (rowGroups mint (buildLiteralObject rt) options baseInstanceIri
      predicateIris graphIri columnKeys r dataRows src))"
proof -
  have "quadOfRecord (snd e) = fst e"
    if mem: "e \<in> set (concat (rowGroups mint (buildLiteralObject rt) options baseInstanceIri
      predicateIris graphIri columnKeys r dataRows src))" for e
  proof -
    obtain grp where g: "grp \<in> set (rowGroups mint (buildLiteralObject rt) options baseInstanceIri
        predicateIris graphIri columnKeys r dataRows src)" and m: "e \<in> set grp"
      using mem by auto
    obtain subjectIri row where "grp = emitted (cellStep (buildLiteralObject rt) options predicateIris
        graphIri subjectIri row) (zip [0 ..< length columnKeys] columnKeys)"
      using rowGroups_member [OF g] by blast
    with m show ?thesis
      using emitted_roundtrip by blast
  qed
  then show ?thesis
    by (simp add: comp_def)
qed

lemma datasetFromQuads_map:
  "datasetFromQuads records = foldl addQuad [] (map quadOfRecord records)"
  by (simp add: datasetFromQuads_def foldl_map)

lemma getRunDataset_putRun:
  assumes "putRun None db run = Inr db'"
  shows "getRunDataset db' (run_graphIri run) = Some run"
proof -
  have "find (\<lambda>r. run_graphIri r = run_graphIri run)
      (filter (\<lambda>r. run_graphIri r \<noteq> run_graphIri run) xs @ [run]) = Some run" for xs
    by (induction xs) simp_all
  then show ?thesis
    using assms by (auto simp: putRun_def getRunDataset_def)
qed

text \<open>
  Claim C2. Quad assembly succeeds; storing the run and reading it back by its graph
  identifier returns the records that were stored; \<open>datasetFromQuads\<close> applied to them
  rebuilds the store that assembly produced, quad for quad, so that every codec gives the
  same Turtle, TriG, N-Triples and N-Quads text (and the same JSON-LD) for the rebuilt
  store as for the assembled one, with the same prefixes.
\<close>

theorem reload_roundtrip:
  "(case buildDatasetFromTabular tabular options baseInstanceIri predicateIris graphIri mint
          (buildLiteralObject rt) src of
      Inl e \<Rightarrow> False
    | Inr (dataset, quads) \<Rightarrow>
        (case putRun None db \<lparr>run_graphIri = graphIri, run_filename = filename,
                run_createdAtIso = createdAtIso, run_quads = quads\<rparr> of
           Inl e \<Rightarrow> False
         | Inr db' \<Rightarrow>
             (case getRunDataset db' graphIri of
                None \<Rightarrow> False
              | Some run \<Rightarrow>
                  run_quads run = quads
                  \<and> datasetFromQuads (run_quads run) = dataset
                  \<and> datasetToSerializations cd (datasetFromQuads (run_quads run)) graphIri prefixes
                      = datasetToSerializations cd dataset graphIri prefixes)))"
proof -
  define groups where "groups = concat (rowGroups mint (buildLiteralObject rt) options baseInstanceIri
      predicateIris graphIri (Object_keys predicateIris) 0 (dataRowsOf tabular options) src)"
  define dataset where "dataset = foldl addQuad [] (map fst groups)"
  define quads where "quads = map snd groups"
  define run where "run = \<lparr>run_graphIri = graphIri, run_filename = filename,
                run_createdAtIso = createdAtIso, run_quads = quads\<rparr>"
  have build: "buildDatasetFromTabular tabular options baseInstanceIri predicateIris graphIri mint
          (buildLiteralObject rt) src = Inr (dataset, quads)"
    unfolding dataset_def quads_def groups_def
    by (rule buildDatasetFromTabular_groups [OF buildLiteralObject_total])
  obtain db' where put: "putRun None db run = Inr db'"
    by (simp add: putRun_def)
  have get: "getRunDataset db' graphIri = Some run"
    using getRunDataset_putRun [OF put] by (simp add: run_def)
  have rebuilt: "datasetFromQuads quads = dataset"
    unfolding datasetFromQuads_map dataset_def quads_def groups_def
    by (simp only: rowGroups_roundtrip)
  show ?thesis
    unfolding build
    using put get rebuilt by (simp add: run_def)
qed

section \<open>Running a staged file\<close>

text \<open>
  Claim C3, as the code has it. \<open>handleRun\<close> serializes before it stores: when assembly has
  succeeded and serialization fails, \<open>putRun\<close> is never reached. The store and the last
  output are unchanged and the failure is reported as "Run failed".
\<close>

theorem serialization_failure_skips_store:
  assumes "st_db st = Some db"
    and "st_stagedFiles st = staged # rest"
    and "env_readTabular env staged = Inr tabular"
    and "buildRunGraphIri (cfg_baseRunIri cfg) (sf_name staged) (env_now env) = Inr graphIri"
    and "buildDatasetFromTabular tabular (sf_options staged) (cfg_baseInstanceIri cfg)
           (buildPredicateIrisForColumns
              (buildColumnKeys (tab_header tabular) (tab_rows tabular)
                 (opt_treatFirstRowAsHeader (sf_options staged)))
              (opt_predicate (sf_options staged)) (cfg_basePredicateIri cfg))
           graphIri buildRowInstanceIri (buildLiteralObject (env_runtime env)) (env_uuids env)
         = Inr (dataset, quads)"
    and "datasetToSerializations (env_codecs env) dataset graphIri (cfg_prefixes cfg) = Inl e"
  shows "handleRun env cfg st = st\<lparr>st_toasts := st_toasts st @ [(''Run failed'', errorMessage e)]\<rparr>"
  unfolding handleRun_def handleRunBody_def Let_def
  by (simp add: assms)

text \<open>
  Claim C3 as stated fails: in the run below assembly succeeds with four quads, the
  writer fails, the store transaction itself would not fail, and yet nothing is stored.
\<close>

theorem serialization_failure_prevents_store:
  "quadCount (buildDatasetFromTabular raggedGrid exampleOptions (cfg_baseInstanceIri exampleDefaults)
      raggedPredicateIris ''https://example.org/TableNova/run/2026-11-03/people''
      buildRowInstanceIri (buildLiteralObject nullRuntime) exampleSource) = Some 4
   \<and> env_putFault failingEnv = None
   \<and> st_db readyState = Some []
   \<and> st_db (handleRun failingEnv exampleDefaults readyState) = Some []
   \<and> st_lastOutput (handleRun failingEnv exampleDefaults readyState) = None
   \<and> st_toasts (handleRun failingEnv exampleDefaults readyState) = [(''Run failed'', ''writer failed'')]"
  by code_simp

theorem serialization_failure_skips_store_witness:
  "st_db readyState = Some []
   \<and> st_stagedFiles readyState = [peopleFile]
   \<and> env_readTabular failingEnv peopleFile = Inr raggedGrid
   \<and> buildRunGraphIri (cfg_baseRunIri exampleDefaults) (sf_name peopleFile) (env_now failingEnv)
        = Inr ''https://example.org/TableNova/run/2026-11-03/people''
   \<and> handleRun failingEnv exampleDefaults readyState
        = readyState\<lparr>st_toasts := st_toasts readyState @ [(''Run failed'', errorMessage (Rejected ''writer failed''))]\<rparr>"
proof -
  have h1: "st_db readyState = Some []"
    by (simp add: readyState_def)
  have h2: "st_stagedFiles readyState = [peopleFile]"
    by (simp add: readyState_def)
  have h3: "env_readTabular failingEnv peopleFile = Inr raggedGrid"
    by (simp add: failingEnv_def)
  have h4: "buildRunGraphIri (cfg_baseRunIri exampleDefaults) (sf_name peopleFile) (env_now failingEnv)
        = Inr ''https://example.org/TableNova/run/2026-11-03/people''"
    by code_simp
  obtain dataset quads where h5: "buildDatasetFromTabular raggedGrid (sf_options peopleFile)
           (cfg_baseInstanceIri exampleDefaults)
           (buildPredicateIrisForColumns
              (buildColumnKeys (tab_header raggedGrid) (tab_rows raggedGrid)
                 (opt_treatFirstRowAsHeader (sf_options peopleFile)))
              (opt_predicate (sf_options peopleFile)) (cfg_basePredicateIri exampleDefaults))
           ''https://example.org/TableNova/run/2026-11-03/people'' buildRowInstanceIri
           (buildLiteralObject (env_runtime failingEnv)) (env_uuids failingEnv)
         = Inr (dataset, quads)"
    by (rule that, rule buildDatasetFromTabular_groups [OF buildLiteralObject_total])
  have h6: "datasetToSerializations (env_codecs failingEnv) dataset
      ''https://example.org/TableNova/run/2026-11-03/people'' (cfg_prefixes exampleDefaults)
      = Inl (Rejected ''writer failed'')"
    by (simp add: datasetToSerializations_def writeWithN3_def failingEnv_def failingCodecs_def)
  have "handleRun failingEnv exampleDefaults readyState
        = readyState\<lparr>st_toasts := st_toasts readyState @ [(''Run failed'', errorMessage (Rejected ''writer failed''))]\<rparr>"
    using h1 h2 h3 h4 h5 h6 by (rule serialization_failure_skips_store)
  with h1 h2 h3 h4 show ?thesis
    by blast
qed

end
